theory Spec2Isabelle
  imports Complex_Main "HOL-Library.Sublist" "HOL-Library.Log_Nat"
begin

section \<open>Strings and errors of the JavaScript runtime\<close>

text \<open>
  A JavaScript string is modelled as a \<open>string\<close> (a list of 8-bit characters, read as the
  code units U+0000 to U+00FF); every literal of the sources is in that range.
  \<open>startsWith\<close> and \<open>includesStr\<close> are \<open>String.prototype.startsWith\<close> and
  \<open>String.prototype.includes\<close>, both case-sensitive; they compare code unit by code
  unit and are defined for lists of any kind of code unit.
\<close>

fun startsWith :: "'a list \<Rightarrow> 'a list \<Rightarrow> bool" where
  "startsWith s [] = True"
| "startsWith [] (p # ps) = False"
| "startsWith (c # cs) (p # ps) = (c = p \<and> startsWith cs ps)"

fun includesStr :: "'a list \<Rightarrow> 'a list \<Rightarrow> bool" where
  "includesStr [] t = (t = [])"
| "includesStr (c # cs) t = (startsWith (c # cs) t \<or> includesStr cs t)"

text \<open>
  A thrown value: the sources read only \<open>error.message\<close> and \<open>error.status\<close>, either of
  which may be undefined. \<open>newError m\<close> is \<open>new Error(m)\<close>, which has no status.
\<close>

record jsError =
  message :: "string option"
  status :: "int option"

definition newError :: "string \<Rightarrow> jsError" where
  "newError m = \<lparr>message = Some m, status = None\<rparr>"

section \<open>The browser: image decoding and canvas encoding\<close>

text \<open>
  Loading an image source either fires \<open>onerror\<close> or fires \<open>onload\<close> with the decoded
  \<open>img.width\<close> and \<open>img.height\<close> (unsigned integers). What a source decodes to, whether a
  2d context is available, what \<open>canvas.toDataURL\<close> returns for a canvas (described by the
  source drawn, the canvas width and height, whether a white backdrop was painted first and
  the JPEG quality in tenths) and \<open>encodeURIComponent\<close> belong to the browser and are
  parameters of the model.
\<close>

datatype loadOutcome = LoadError | Loaded nat nat

record browser =
  loadImage :: "string \<Rightarrow> loadOutcome"
  getContext2d :: bool
  toDataURL :: "string \<Rightarrow> nat \<Rightarrow> nat \<Rightarrow> bool \<Rightarrow> nat \<Rightarrow> string"
  encodeURIComponent :: "string \<Rightarrow> string"

subsection \<open>urlToBase64\<close>

text \<open>
  The function is the same in both versions of the service module. The state threaded
  through it is the list of image URLs requested over the network so far.
\<close>

definition proxyUrl :: "browser \<Rightarrow> string \<Rightarrow> string" where
  "proxyUrl b url =
     ''https://images.weserv.nl/?url='' @ encodeURIComponent b url @ ''&w=1024&output=jpg''"

definition urlToBase64 :: "browser \<Rightarrow> string \<Rightarrow> string list \<Rightarrow> (jsError + string) \<times> string list" where
  "urlToBase64 b url requests =
     (if startsWith url ''data:'' then (Inr url, requests)
      else
        (let src = proxyUrl b url; requests' = requests @ [src] in
         case loadImage b src of
           LoadError \<Rightarrow> (Inl (newError ''Produktbild Fehler''), requests')
         | Loaded w h \<Rightarrow>
             if \<not> getContext2d b then (Inl (newError ''Canvas fail''), requests')
             else (Inr (toDataURL b src w h False 8), requests')))"

section \<open>The resilient invoker: fetchWithRetry\<close>

text \<open>
  The wrapped operation \<open>fn\<close> is effectful: what it yields may differ from one invocation
  to the next. It is modelled by the sequence of its outcomes, \<open>fn i\<close> being what the
  invocation number \<open>i\<close> (counted from 0) yields: \<open>Inr v\<close> when the promise resolves
  with \<open>v\<close>, \<open>Inl e\<close> when it rejects with \<open>e\<close>. The state threaded through
  the recursion records how many invocations were made and the \<open>setTimeout\<close> delays
  (milliseconds) slept, in order. \<open>retries\<close> and \<open>delay\<close> are integers; the function
  is private to its module and only ever called with the defaults 2 and 2000.
\<close>

record trace =
  calls :: nat
  sleeps :: "int list"

definition startTrace :: trace where
  "startTrace = \<lparr>calls = 0, sleeps = []\<rparr>"

text \<open>Version of \<open>src/unnamed/part_001\<close>: the entity-not-found check comes first.\<close>

definition errorMsg :: "jsError \<Rightarrow> string" where
  "errorMsg e = (case message e of None \<Rightarrow> [] | Some m \<Rightarrow> m)"

definition isRetryable_001 :: "jsError \<Rightarrow> bool" where
  "isRetryable_001 e \<longleftrightarrow> includesStr (errorMsg e) ''429'' \<or> status e = Some 429"

function fetchWithRetry_001 ::
  "(nat \<Rightarrow> jsError + 'a) \<Rightarrow> int \<Rightarrow> int \<Rightarrow> trace \<Rightarrow> (jsError + 'a) \<times> trace" where
  "fetchWithRetry_001 fn retries delay tr =
     (case fn (calls tr) of
        Inr v \<Rightarrow> (Inr v, tr\<lparr>calls := calls tr + 1\<rparr>)
      | Inl e \<Rightarrow>
          if includesStr (errorMsg e) ''Requested entity was not found''
          then (Inl (newError ''KEY_NOT_FOUND''), tr\<lparr>calls := calls tr + 1\<rparr>)
          else if retries > 0 \<and> isRetryable_001 e
          then fetchWithRetry_001 fn (retries - 1) (delay * 2)
                 \<lparr>calls = calls tr + 1, sleeps = sleeps tr @ [delay]\<rparr>
          else (Inl e, tr\<lparr>calls := calls tr + 1\<rparr>))"
  by pat_completeness auto
termination
  by (relation "measure (\<lambda>(fn, retries, delay, tr). nat retries)") auto

declare fetchWithRetry_001.simps [simp del]

text \<open>
  Version of \<open>src/unnamed/part_002\<close>: no entity-not-found check, and a message
  containing \<open>quota\<close> is retryable too. \<open>error.message?.includes(..)\<close> is undefined,
  hence falsy, when the message is undefined.
\<close>

definition isRetryable_002 :: "jsError \<Rightarrow> bool" where
  "isRetryable_002 e \<longleftrightarrow>
     (case message e of None \<Rightarrow> False | Some m \<Rightarrow> includesStr m ''429'')
     \<or> status e = Some 429
     \<or> (case message e of None \<Rightarrow> False | Some m \<Rightarrow> includesStr m ''quota'')"

function fetchWithRetry_002 ::
  "(nat \<Rightarrow> jsError + 'a) \<Rightarrow> int \<Rightarrow> int \<Rightarrow> trace \<Rightarrow> (jsError + 'a) \<times> trace" where
  "fetchWithRetry_002 fn retries delay tr =
     (case fn (calls tr) of
        Inr v \<Rightarrow> (Inr v, tr\<lparr>calls := calls tr + 1\<rparr>)
      | Inl e \<Rightarrow>
          if retries > 0 \<and> isRetryable_002 e
          then fetchWithRetry_002 fn (retries - 1) (delay * 2)
                 \<lparr>calls = calls tr + 1, sleeps = sleeps tr @ [delay]\<rparr>
          else (Inl e, tr\<lparr>calls := calls tr + 1\<rparr>))"
  by pat_completeness auto
termination
  by (relation "measure (\<lambda>(fn, retries, delay, tr). nat retries)") auto

declare fetchWithRetry_002.simps [simp del]

text \<open>
  Vocabulary for the properties of the two versions. A failure is \<^emph>\<open>retried\<close> when the
  code sleeps and calls itself again provided \<open>retries > 0\<close>; \<open>raised\<close> is the error thrown
  for a failure that ends the run. \<open>stopIndex retried fn c n\<close> counts the retried failures
  from invocation \<open>c\<close> on, up to the budget \<open>n\<close>.
\<close>

definition entityNotFound :: "jsError \<Rightarrow> bool" where
  "entityNotFound e \<longleftrightarrow> includesStr (errorMsg e) ''Requested entity was not found''"

definition retried_001 :: "jsError \<Rightarrow> bool" where
  "retried_001 e \<longleftrightarrow> \<not> entityNotFound e \<and> isRetryable_001 e"

definition raised_001 :: "jsError \<Rightarrow> jsError" where
  "raised_001 e = (if entityNotFound e then newError ''KEY_NOT_FOUND'' else e)"

fun stopIndex :: "(jsError \<Rightarrow> bool) \<Rightarrow> (nat \<Rightarrow> jsError + 'a) \<Rightarrow> nat \<Rightarrow> nat \<Rightarrow> nat" where
  "stopIndex retried fn c 0 = 0"
| "stopIndex retried fn c (Suc n) =
     (case fn c of
        Inr v \<Rightarrow> 0
      | Inl e \<Rightarrow> if retried e then Suc (stopIndex retried fn (Suc c) n) else 0)"

definition backoff :: "int \<Rightarrow> nat \<Rightarrow> int list" where
  "backoff delay k = map (\<lambda>i. delay * 2 ^ i) [0..<k]"

text \<open>
  The contract of the invoker for a run that made \<open>made\<close> invocations: the budget bounds
  them; the delays slept are \<open>delay\<close>, \<open>2 * delay\<close>, \<open>4 * delay\<close>, ... one before each
  invocation after the first; every invocation before the last failed with a retried
  failure, so a value returned is that of the first invocation that succeeded; and a run
  whose last invocation fails with a retried failure has used the whole budget and throws
  that last error.
\<close>

definition retryContract ::
  "(jsError \<Rightarrow> bool) \<Rightarrow> (nat \<Rightarrow> jsError + 'a) \<Rightarrow> int \<Rightarrow> int \<Rightarrow> (jsError + 'a) \<times> trace \<Rightarrow> bool" where
  "retryContract retried fn retries delay run \<longleftrightarrow>
     (let made = calls (snd run) in
      1 \<le> made \<and> made \<le> nat retries + 1
      \<and> sleeps (snd run) = backoff delay (made - 1)
      \<and> (\<forall>i < made - 1. \<exists>e. fn i = Inl e \<and> retried e)
      \<and> (\<forall>v. fn (made - 1) = Inr v \<longleftrightarrow> fst run = Inr v)
      \<and> (\<forall>e. fn (made - 1) = Inl e \<and> retried e \<longrightarrow> made = nat retries + 1 \<and> fst run = Inl e))"

text \<open>
  Operations and errors for the worked examples: an operation that fails twice with a
  rate-limit error and then succeeds, one that always fails with a given error, an
  entity-not-found error and a quota error. \<open>msgHas e t\<close> says that the message of \<open>e\<close>
  contains \<open>t\<close>.
\<close>

definition rateLimited :: jsError where
  "rateLimited = \<lparr>message = Some ''429 Too Many Requests'', status = None\<rparr>"

definition failsTwice :: "nat \<Rightarrow> jsError + string" where
  "failsTwice i = (if i < 2 then Inl rateLimited else Inr ''done'')"

definition alwaysFails :: "jsError \<Rightarrow> nat \<Rightarrow> jsError + string" where
  "alwaysFails e i = Inl e"

definition notFoundError :: jsError where
  "notFoundError = \<lparr>message = Some ''Requested entity was not found.'', status = None\<rparr>"

definition quotaError :: jsError where
  "quotaError = \<lparr>message = Some ''Resource quota exceeded'', status = None\<rparr>"

definition msgHas :: "jsError \<Rightarrow> string \<Rightarrow> bool" where
  "msgHas e t \<longleftrightarrow> includesStr (errorMsg e) t"

section \<open>Image normalisation: optimizeImage\<close>

subsection \<open>Arithmetic on JavaScript numbers\<close>

text \<open>
  A JavaScript number is an IEEE 754 double; the finite ones are rationals. The product
  and the quotient of two doubles are the exact result rounded to the nearest double,
  ties to the one with an even significand. \<open>binade x\<close> is the exponent \<open>e\<close> with
  \<open>2 ^ e \<le> x < 2 ^ (e + 1)\<close> for a positive \<open>x\<close>; doubles in that range are the
  multiples of \<open>2 ^ (e - 52)\<close>, and below \<open>2 ^ (-1022)\<close> the multiples of
  \<open>2 ^ (-1074)\<close>. Overflow to infinity is left out: no operation of \<open>optimizeSize\<close>
  yields a result beyond its operands' range.
\<close>

definition binade :: "rat \<Rightarrow> int" where
  "binade x = (if 1 \<le> x then bitlen \<lfloor>x\<rfloor> - 1 else - bitlen (\<lceil>1 / x\<rceil> - 1))"

definition roundEven :: "rat \<Rightarrow> int" where
  "roundEven y =
     (let f = \<lfloor>y\<rfloor>; d = y - of_int f in
      if d < 1 / 2 then f else if 1 / 2 < d then f + 1 else if even f then f else f + 1)"

definition roundDouble :: "rat \<Rightarrow> rat" where
  "roundDouble x =
     (if x = 0 then 0
      else (let q = 2 powi (max (binade \<bar>x\<bar>) (- 1022) - 52)
            in sgn x * (q * of_int (roundEven (\<bar>x\<bar> / q)))))"

subsection \<open>optimizeImage\<close>

text \<open>
  \<open>optimizeImage\<close> is the same in both versions of the service module.
  \<open>optimizeSize\<close> is the block that computes \<open>width\<close> and \<open>height\<close>: the image
  dimensions are whole numbers, \<open>maxWidth\<close> is a double, and \<open>height *= maxWidth / width\<close>
  rounds twice, after the division and after the multiplication. \<open>canvasDim\<close> is the
  assignment of a non-negative number to \<open>canvas.width\<close> or \<open>canvas.height\<close>, which
  truncates it to an unsigned integer.
\<close>

definition optimizeSize :: "nat \<Rightarrow> nat \<Rightarrow> rat \<Rightarrow> rat \<times> rat" where
  "optimizeSize w h maxWidth =
     (let width = of_nat w; height = of_nat h in
      if width > height
      then (if width > maxWidth
            then (maxWidth, roundDouble (height * roundDouble (maxWidth / width)))
            else (width, height))
      else (if height > maxWidth
            then (roundDouble (width * roundDouble (maxWidth / height)), maxWidth)
            else (width, height)))"

definition canvasDim :: "rat \<Rightarrow> nat" where
  "canvasDim x = nat \<lfloor>x\<rfloor>"

definition optimizeImage :: "browser \<Rightarrow> string \<Rightarrow> rat \<Rightarrow> jsError + string" where
  "optimizeImage b base64 maxWidth =
     (case loadImage b base64 of
        LoadError \<Rightarrow> Inl (newError ''Bild konnte nicht verarbeitet werden.'')
      | Loaded w h \<Rightarrow>
          (case optimizeSize w h maxWidth of
             (width, height) \<Rightarrow>
               if \<not> getContext2d b then Inl (newError ''Canvas failure'')
               else Inr (toDataURL b base64 (canvasDim width) (canvasDim height) True 7)))"

definition decodeErrorText :: string where
  "decodeErrorText = ''Bild konnte nicht verarbeitet werden.''"

text \<open>The width and height of the canvas that \<open>optimizeImage\<close> encodes.\<close>

definition canvasSize :: "nat \<Rightarrow> nat \<Rightarrow> rat \<Rightarrow> nat \<times> nat" where
  "canvasSize w h maxWidth =
     (case optimizeSize w h maxWidth of (width, height) \<Rightarrow> (canvasDim width, canvasDim height))"

section \<open>The generation client\<close>

subsection \<open>Backend responses\<close>

text \<open>
  The shape the sources read from a \<open>generateContent\<close> response; every field is
  optional, as the optional chaining of the sources allows.
\<close>

record blob =
  data :: "string option"
  mimeType :: "string option"

record part =
  inlineData :: "blob option"
  partText :: "string option"

record content =
  parts :: "part list option"

record candidate =
  finishReason :: "string option"
  candidateContent :: "content option"

record response =
  responseText :: "string option"
  candidates :: "candidate list option"

subsection \<open>Size parsing in estimateSizeFromImage\<close>

text \<open>
  The response text is a string of characters up to U+00FF. \<open>trim\<close> removes the white
  space and line terminators of that range from both ends. \<open>toUpperCase\<close> is
  \<open>String.prototype.toUpperCase\<close> on such a string; its result is a list of UTF-16 code
  units, since the upper-case forms of two of the characters lie beyond U+00FF. The
  letters a to z, U+00E0 to U+00F6 and U+00F8 to U+00FE move down by 0x20, the micro sign
  U+00B5 becomes U+039C, the sharp s U+00DF becomes the two letters SS, U+00FF becomes
  U+0178, and every other character is unchanged. \<open>codeUnits\<close> reads a string as code
  units.
\<close>

definition isWhiteSpace :: "char \<Rightarrow> bool" where
  "isWhiteSpace c \<longleftrightarrow> c \<in> set [CHR 0x09, CHR 0x0A, CHR 0x0B, CHR 0x0C, CHR 0x0D, CHR 0x20, CHR 0xA0]"

definition trim :: "string \<Rightarrow> string" where
  "trim s = rev (dropWhile isWhiteSpace (rev (dropWhile isWhiteSpace s)))"

definition toUpperChar :: "char \<Rightarrow> nat list" where
  "toUpperChar c =
     (let n = of_char c in
      if 0x61 \<le> n \<and> n \<le> 0x7A then [n - 0x20]
      else if n = 0xB5 then [0x39C]
      else if n = 0xDF then [0x53, 0x53]
      else if (0xE0 \<le> n \<and> n \<le> 0xF6) \<or> (0xF8 \<le> n \<and> n \<le> 0xFE) then [n - 0x20]
      else if n = 0xFF then [0x178]
      else [n])"

definition toUpperCase :: "string \<Rightarrow> nat list" where
  "toUpperCase s = concat (map toUpperChar s)"

definition codeUnits :: "string \<Rightarrow> nat list" where
  "codeUnits s = map of_char s"

definition validSizes :: "string list" where
  "validSizes = [''XS'', ''S'', ''M'', ''L'', ''XL'', ''XXL'']"

text \<open>
  The last two statements of the wrapped operation of \<open>estimateSizeFromImage\<close>, applied to
  \<open>response.text\<close>; an empty string is falsy, so \<open>||\<close> replaces it by \<open>M\<close>.
\<close>

definition parseSize :: "string option \<Rightarrow> string" where
  "parseSize txt =
     (let size = (case txt of
                    None \<Rightarrow> codeUnits ''M''
                  | Some t \<Rightarrow>
                      (let u = toUpperCase (trim t) in if u = [] then codeUnits ''M'' else u))
      in case find (\<lambda>s. includesStr size (codeUnits s)) validSizes of
           Some s \<Rightarrow> (if s = [] then ''M'' else s)
         | None \<Rightarrow> ''M'')"

text \<open>
  Containment regardless of letter case, stated without reference to upper-casing: some
  substring of the text agrees with the code letter by letter, where two characters agree
  when they are equal or are the lower-case and upper-case form of one of the letters a to
  z.
\<close>

definition sameLetter :: "char \<Rightarrow> char \<Rightarrow> bool" where
  "sameLetter a b \<longleftrightarrow>
     a = b
     \<or> (a, b) \<in> set (zip ''abcdefghijklmnopqrstuvwxyz'' ''ABCDEFGHIJKLMNOPQRSTUVWXYZ'')
     \<or> (b, a) \<in> set (zip ''abcdefghijklmnopqrstuvwxyz'' ''ABCDEFGHIJKLMNOPQRSTUVWXYZ'')"

fun startsWithAnyCase :: "string \<Rightarrow> string \<Rightarrow> bool" where
  "startsWithAnyCase s [] = True"
| "startsWithAnyCase [] (p # ps) = False"
| "startsWithAnyCase (c # cs) (p # ps) = (sameLetter c p \<and> startsWithAnyCase cs ps)"

fun containsAnyCase :: "string \<Rightarrow> string \<Rightarrow> bool" where
  "containsAnyCase [] t = (t = [])"
| "containsAnyCase (c # cs) t = (startsWithAnyCase (c # cs) t \<or> containsAnyCase cs t)"

text \<open>The letters the six size codes are written with.\<close>

definition codeLetters :: "char set" where
  "codeLetters = {CHR ''X'', CHR ''S'', CHR ''M'', CHR ''L''}"

subsection \<open>The wrapped operations\<close>

text \<open>
  What the backend answers to the \<open>generateContent\<close> call of an invocation is a parameter:
  \<open>Inl e\<close> when the call throws \<open>e\<close>, \<open>Inr r\<close> when it returns the response \<open>r\<close>.
  The request sent (model name, images with their data-URL header stripped, prompt) does not
  enter any result and is left out.
\<close>

definition estimateAttempt :: "browser \<Rightarrow> string \<Rightarrow> jsError + response \<Rightarrow> jsError + string" where
  "estimateAttempt b userBase64 answer =
     (case optimizeImage b userBase64 800 of
        Inl e \<Rightarrow> Inl e
      | Inr optimized \<Rightarrow>
          (case answer of
             Inl e \<Rightarrow> Inl e
           | Inr r \<Rightarrow> Inr (parseSize (responseText r))))"

definition estimateSizeFromImage_001 ::
  "browser \<Rightarrow> (nat \<Rightarrow> jsError + response) \<Rightarrow> string \<Rightarrow> (jsError + string) \<times> trace" where
  "estimateSizeFromImage_001 b backend userBase64 =
     fetchWithRetry_001 (\<lambda>i. estimateAttempt b userBase64 (backend i)) 2 2000 startTrace"

definition estimateSizeFromImage_002 ::
  "browser \<Rightarrow> (nat \<Rightarrow> jsError + response) \<Rightarrow> string \<Rightarrow> (jsError + string) \<times> trace" where
  "estimateSizeFromImage_002 b backend userBase64 =
     fetchWithRetry_002 (\<lambda>i. estimateAttempt b userBase64 (backend i)) 2 2000 startTrace"

text \<open>
  \<open>firstOf\<close> is \<open>?.[0]\<close> on an array. \<open>inspectResponse\<close> is the tail of the wrapped
  operation of \<open>performVirtualTryOn\<close>, from the \<open>SAFETY\<close> test on; the two versions differ
  only in the texts of the two errors.
\<close>

definition firstOf :: "'a list \<Rightarrow> 'a option" where
  "firstOf xs = (case xs of [] \<Rightarrow> None | x # _ \<Rightarrow> Some x)"

definition inspectResponse :: "string \<Rightarrow> string \<Rightarrow> response \<Rightarrow> jsError + string" where
  "inspectResponse safetyText failureText r =
     (let candidate0 = Option.bind (candidates r) firstOf in
      if Option.bind candidate0 finishReason = Some ''SAFETY''
      then Inl (newError safetyText)
      else
        (let part = Option.bind (Option.bind (Option.bind candidate0 candidateContent) parts)
                      (find (\<lambda>p. inlineData p \<noteq> None))
         in case Option.bind (Option.bind part inlineData) data of
              Some d \<Rightarrow>
                if d \<noteq> [] then Inr (''data:image/jpeg;base64,'' @ d)
                else Inl (newError failureText)
            | None \<Rightarrow> Inl (newError failureText)))"

definition safetyText_001 :: string where
  "safetyText_001 =
     ''Das Bild wurde aus Sicherheitsgr'' @ [CHR 0xFC] @
     ''nden blockiert. Bitte trage auf deinem Foto neutrale Kleidung.''"

definition failureText_001 :: string where
  "failureText_001 =
     ''KI konnte kein Bild generieren. Bitte versuche es mit einem deutlicheren Foto.''"

definition safetyText_002 :: string where
  "safetyText_002 =
     ''Bild blockiert. Bitte w'' @ [CHR 0xE4] @ ''hle ein Foto mit neutraler Kleidung.''"

definition failureText_002 :: string where
  "failureText_002 = ''KI-Fehler. Bitte versuche es mit einem Ganzk'' @ [CHR 0xF6] @ ''rperfoto.''"

definition tryOnAttempt ::
  "string \<Rightarrow> string \<Rightarrow> browser \<Rightarrow> string \<Rightarrow> string \<Rightarrow> jsError + response \<Rightarrow> jsError + string" where
  "tryOnAttempt safetyText failureText b userBase64 productBase64 answer =
     (case optimizeImage b userBase64 1024 of
        Inl e \<Rightarrow> Inl e
      | Inr optUser \<Rightarrow>
          (case optimizeImage b productBase64 1024 of
             Inl e \<Rightarrow> Inl e
           | Inr optProduct \<Rightarrow>
               (case answer of
                  Inl e \<Rightarrow> Inl e
                | Inr r \<Rightarrow> inspectResponse safetyText failureText r)))"

definition performVirtualTryOn_001 ::
  "browser \<Rightarrow> (nat \<Rightarrow> jsError + response) \<Rightarrow> string \<Rightarrow> string \<Rightarrow> (jsError + string) \<times> trace" where
  "performVirtualTryOn_001 b backend userBase64 productBase64 =
     fetchWithRetry_001
       (\<lambda>i. tryOnAttempt safetyText_001 failureText_001 b userBase64 productBase64 (backend i))
       2 2000 startTrace"

definition performVirtualTryOn_002 ::
  "browser \<Rightarrow> (nat \<Rightarrow> jsError + response) \<Rightarrow> string \<Rightarrow> string \<Rightarrow> (jsError + string) \<times> trace" where
  "performVirtualTryOn_002 b backend userBase64 productBase64 =
     fetchWithRetry_002
       (\<lambda>i. tryOnAttempt safetyText_002 failureText_002 b userBase64 productBase64 (backend i))
       2 2000 startTrace"

text \<open>
  Vocabulary for the properties of \<open>inspectResponse\<close>: whether the first candidate
  reports \<open>SAFETY\<close>, the parts of the first candidate (none when a link of the chain is
  missing), and a response with the declared MIME type of every inline blob replaced.
\<close>

definition reportsSafety :: "response \<Rightarrow> bool" where
  "reportsSafety r \<longleftrightarrow>
     (case candidates r of
        Some (c # cs) \<Rightarrow> finishReason c = Some ''SAFETY''
      | _ \<Rightarrow> False)"

definition partsOf :: "response \<Rightarrow> part list" where
  "partsOf r =
     (case candidates r of
        Some (c # cs) \<Rightarrow>
          (case candidateContent c of
             Some ct \<Rightarrow> (case parts ct of Some ps \<Rightarrow> ps | None \<Rightarrow> [])
           | None \<Rightarrow> [])
      | _ \<Rightarrow> [])"

definition withMimeType :: "string option \<Rightarrow> response \<Rightarrow> response" where
  "withMimeType m r =
     r\<lparr>candidates :=
         map_option (map (\<lambda>c. c\<lparr>candidateContent :=
           map_option (\<lambda>ct. ct\<lparr>parts :=
             map_option (map (\<lambda>p. p\<lparr>inlineData :=
               map_option (\<lambda>bl. bl\<lparr>mimeType := m\<rparr>) (inlineData p)\<rparr>)) (parts ct)\<rparr>)
             (candidateContent c)\<rparr>)) (candidates r)\<rparr>"

text \<open>
  Responses for the worked examples: one candidate with the given finish reason and parts;
  a text part, an inline part without data and an inline PNG part with data.
\<close>

definition candidateOf :: "string \<Rightarrow> part list \<Rightarrow> response" where
  "candidateOf reason ps =
     \<lparr>responseText = None,
      candidates = Some [\<lparr>finishReason = Some reason,
                          candidateContent = Some \<lparr>parts = Some ps\<rparr>\<rparr>]\<rparr>"

definition textPart :: part where
  "textPart = \<lparr>inlineData = None, partText = Some ''Here is the image.''\<rparr>"

definition emptyInlinePart :: part where
  "emptyInlinePart = \<lparr>inlineData = Some \<lparr>data = None, mimeType = Some ''image/png''\<rparr>, partText = None\<rparr>"

definition pngPart :: part where
  "pngPart = \<lparr>inlineData = Some \<lparr>data = Some ''QUJD'', mimeType = Some ''image/png''\<rparr>, partText = None\<rparr>"

definition answersWith :: "response \<Rightarrow> nat \<Rightarrow> jsError + response" where
  "answersWith r i = Inr r"

text \<open>
  A response text for the worked examples, the German for "size unknown", written with
  o-umlaut (U+00F6) and sharp s (U+00DF).
\<close>

definition sizeUnknownText :: string where
  "sizeUnknownText = ''Gr'' @ [CHR 0xF6, CHR 0xDF] @ ''e unbekannt''"

text \<open>A backend for the worked examples that answers every call with the given text.\<close>

definition answersText :: "string \<Rightarrow> nat \<Rightarrow> jsError + response" where
  "answersText t i = Inr \<lparr>responseText = Some t, candidates = None\<rparr>"

section \<open>The orchestrator: handleTryOn\<close>

text \<open>
  The component state of \<open>App\<close>. The three service functions are imported from the
  service module; here they are parameters, each giving the outcome of the awaited call.
  The final state is what the \<open>setState\<close>, \<open>setStep\<close>, \<open>setLoadingStep\<close> and
  \<open>setHasKey\<close> calls leave behind; the pacing \<open>setTimeout\<close> between the second and
  the third call changes no state.
\<close>

record product =
  productId :: string
  productName :: string
  description :: string
  imageUrl :: string

record tryOnState =
  userImage :: "string option"
  selectedProduct :: "product option"
  resultImage :: "string option"
  recommendedSize :: "string option"
  isLoading :: bool
  error :: "string option"

record app =
  state :: tryOnState
  hasKey :: "bool option"
  loadingStep :: string
  step :: nat

record services =
  svcUrlToBase64 :: "string \<Rightarrow> jsError + string"
  svcEstimateSize :: "string \<Rightarrow> string \<Rightarrow> jsError + string"
  svcTryOn :: "string \<Rightarrow> string \<Rightarrow> product \<Rightarrow> jsError + string"

text \<open>
  The \<open>try\<close> block after the first two state updates: the value it ends with, either the
  error thrown or the pair published on success, and the progress label last set.
\<close>

definition tryBlock ::
  "string \<Rightarrow> string \<Rightarrow> string \<Rightarrow> services \<Rightarrow> string \<Rightarrow> product \<Rightarrow> (jsError + string \<times> string) \<times> string" where
  "tryBlock label1 label2 label3 svc user p =
     (case svcUrlToBase64 svc (imageUrl p) of
        Inl err \<Rightarrow> (Inl err, label1)
      | Inr productBase64 \<Rightarrow>
          (case svcEstimateSize svc user (productName p) of
             Inl err \<Rightarrow> (Inl err, label2)
           | Inr aiRecommendedSize \<Rightarrow>
               (case svcTryOn svc user productBase64 p of
                  Inl err \<Rightarrow> (Inl err, label3)
                | Inr result \<Rightarrow> (Inr (result, aiRecommendedSize), label3))))"

definition fallbackText :: string where
  "fallbackText = ''Ein technischer Fehler ist aufgetreten.''"

text \<open>The \<open>catch\<close> block of \<open>src/App.tsx\<close>.\<close>

definition catchBlock :: "jsError \<Rightarrow> app \<Rightarrow> app" where
  "catchBlock err a =
     (if message err = Some ''KEY_NOT_FOUND''
      then a\<lparr>hasKey := Some False,
             state := (state a)\<lparr>isLoading := False,
               error := Some (''Bitte w'' @ [CHR 0xE4] @ ''hle deinen API Key erneut aus.'')\<rparr>\<rparr>
      else
        (let msg = (case message err of
                      None \<Rightarrow> fallbackText
                    | Some m \<Rightarrow> if m = [] then fallbackText else m);
             msg' = (if includesStr msg ''429''
                     then ''Die KI ist gerade ausgelastet. Bitte warte einen Moment.''
                     else msg)
         in a\<lparr>state := (state a)\<lparr>isLoading := False, error := Some msg'\<rparr>\<rparr>))"

definition handleTryOn :: "services \<Rightarrow> app \<Rightarrow> app" where
  "handleTryOn svc a =
     (case (userImage (state a), selectedProduct (state a)) of
        (Some user, Some p) \<Rightarrow>
          if user = [] then a
          else
            (let a1 = a\<lparr>state := (state a)\<lparr>isLoading := True, error := None\<rparr>, step := 3\<rparr> in
             case tryBlock ''Lade High-End-Modell...'' ''Analysiere Proportionen...''
                    ''Generiere Foto-Realismus...'' svc user p of
               (Inr (result, aiRecommendedSize), label) \<Rightarrow>
                 a1\<lparr>loadingStep := label,
                    state := (state a1)\<lparr>resultImage := Some result,
                      recommendedSize := Some aiRecommendedSize, isLoading := False\<rparr>\<rparr>
             | (Inl err, label) \<Rightarrow> catchBlock err (a1\<lparr>loadingStep := label\<rparr>))
      | _ \<Rightarrow> a)"

text \<open>The \<open>catch\<close> block and the handler of \<open>src/unnamed/part_000\<close>.\<close>

definition catchBlock_000 :: "jsError \<Rightarrow> app \<Rightarrow> app" where
  "catchBlock_000 err a =
     (let msg = (case message err of
                   None \<Rightarrow> fallbackText
                 | Some m \<Rightarrow> if m = [] then fallbackText else m);
          msg' = (if includesStr msg ''429''
                  then ''Server ausgelastet. Bitte kurz warten.''
                  else msg)
      in a\<lparr>state := (state a)\<lparr>isLoading := False, error := Some msg'\<rparr>\<rparr>)"

definition handleTryOn_000 :: "services \<Rightarrow> app \<Rightarrow> app" where
  "handleTryOn_000 svc a =
     (case (userImage (state a), selectedProduct (state a)) of
        (Some user, Some p) \<Rightarrow>
          if user = [] then a
          else
            (let a1 = a\<lparr>state := (state a)\<lparr>isLoading := True, error := None\<rparr>, step := 3\<rparr> in
             case tryBlock ''Produkt wird geladen...''
                    (''Gr'' @ [CHR 0xF6, CHR 0xDF] @ ''e wird berechnet...'')
                    ''Look wird gerendert...'' svc user p of
               (Inr (result, aiRecommendedSize), label) \<Rightarrow>
                 a1\<lparr>loadingStep := label,
                    state := (state a1)\<lparr>resultImage := Some result,
                      recommendedSize := Some aiRecommendedSize, isLoading := False\<rparr>\<rparr>
             | (Inl err, label) \<Rightarrow> catchBlock_000 err (a1\<lparr>loadingStep := label\<rparr>))
      | _ \<Rightarrow> a)"

text \<open>
  Vocabulary for the properties of the handler. \<open>published a' result size\<close>: the state
  shows the composite image and the size together, and no error. \<open>failed a a'\<close>: the
  state shows an error message that is not empty (an empty string would be read as no
  error by the component), and the result fields are still those of the state \<open>a\<close> in
  which the attempt started. \<open>succeeds\<close>: all three service calls of the attempt resolve.
\<close>

definition published :: "app \<Rightarrow> string \<Rightarrow> string \<Rightarrow> bool" where
  "published a' result size' \<longleftrightarrow>
     resultImage (state a') = Some result \<and> recommendedSize (state a') = Some size'
     \<and> error (state a') = None \<and> \<not> isLoading (state a')"

definition failed :: "app \<Rightarrow> app \<Rightarrow> bool" where
  "failed a a' \<longleftrightarrow>
     (case error (state a') of None \<Rightarrow> False | Some msg \<Rightarrow> msg \<noteq> [])
     \<and> resultImage (state a') = resultImage (state a)
     \<and> recommendedSize (state a') = recommendedSize (state a) \<and> \<not> isLoading (state a')"

definition succeeds :: "services \<Rightarrow> string \<Rightarrow> product \<Rightarrow> bool" where
  "succeeds svc user p \<longleftrightarrow>
     (case svcUrlToBase64 svc (imageUrl p) of
        Inl e \<Rightarrow> False
      | Inr productBase64 \<Rightarrow>
          \<not> isl (svcEstimateSize svc user (productName p))
          \<and> \<not> isl (svcTryOn svc user productBase64 p))"

text \<open>
  States and services for the worked examples: the state after a photo and a product were
  chosen; services that all succeed; services whose rendering call fails after the size
  was estimated.
\<close>

definition exampleProduct :: product where
  "exampleProduct =
     \<lparr>productId = ''1'', productName = ''Set'', description = ''Top and leggings'',
      imageUrl = ''data:image/png;base64,BBBB''\<rparr>"

definition readyApp :: app where
  "readyApp =
     \<lparr>state = \<lparr>userImage = Some ''data:image/png;base64,AAAA'',
                selectedProduct = Some exampleProduct, resultImage = None,
                recommendedSize = None, isLoading = False, error = None\<rparr>,
      hasKey = Some True, loadingStep = [], step = 2\<rparr>"

definition goodServices :: services where
  "goodServices =
     \<lparr>svcUrlToBase64 = (\<lambda>url. Inr url),
      svcEstimateSize = (\<lambda>user name. Inr ''M''),
      svcTryOn = (\<lambda>user garment p. Inr ''data:image/jpeg;base64,QUJD'')\<rparr>"

definition renderFails :: services where
  "renderFails = goodServices\<lparr>svcTryOn := (\<lambda>user garment p. Inl (newError failureText_001))\<rparr>"

text \<open>
  A concrete browser for the worked examples: every source decodes to a 2000 by 1000
  image, a 2d context is available, and the encoder answers \<open>data:,\<close> for a canvas
  without pixels and a JPEG data URL naming the source otherwise.
\<close>

definition exampleBrowser :: browser where
  "exampleBrowser =
     \<lparr>loadImage = (\<lambda>src. Loaded 2000 1000), getContext2d = True,
      toDataURL = (\<lambda>src w h backdrop q.
        if w = 0 \<or> h = 0 then ''data:,'' else ''data:image/jpeg;base64,'' @ src),
      encodeURIComponent = (\<lambda>u. u)\<rparr>"

text \<open>A browser in which every source loads as an image of width and height 0.\<close>

definition emptyImageBrowser :: browser where
  "emptyImageBrowser = exampleBrowser\<lparr>loadImage := (\<lambda>src. Loaded 0 0)\<rparr>"

text \<open>A browser in which no source can be decoded.\<close>

definition brokenImageBrowser :: browser where
  "brokenImageBrowser = exampleBrowser\<lparr>loadImage := (\<lambda>src. LoadError)\<rparr>"

text \<open>A browser in which every source loads as an image of 1122 by 561 pixels.\<close>

definition wideImageBrowser :: browser where
  "wideImageBrowser = exampleBrowser\<lparr>loadImage := (\<lambda>src. Loaded 1122 561)\<rparr>"

section \<open>Properties\<close>

lemma startsWith_prefix: "startsWith s p \<longleftrightarrow> prefix p s"
  by (induction s p rule: startsWith.induct) auto

subsection \<open>urlToBase64\<close>

text \<open>
  Claim C8. A product-image URL that starts with \<open>data:\<close> is returned unchanged by
  \<open>urlToBase64\<close>, and no image URL is requested: the list of network requests is the
  one the call started with.
\<close>

theorem urlToBase64_data_passthrough:
  "prefix ''data:'' url \<Longrightarrow> urlToBase64 b url requests = (Inr url, requests)"
  by (simp add: urlToBase64_def startsWith_prefix)

theorem urlToBase64_data_passthrough_witness:
  "prefix ''data:'' ''data:image/png;base64,AAAA'' \<and>
   urlToBase64 exampleBrowser ''data:image/png;base64,AAAA'' [] =
     (Inr ''data:image/png;base64,AAAA'', [])"
  using urlToBase64_data_passthrough [of "''data:image/png;base64,AAAA''" exampleBrowser "[]"]
  by simp


subsection \<open>The invoker in closed form\<close>

lemma backoff_Suc: "backoff delay (Suc k) = delay # backoff (delay * 2) k"
  by (simp add: backoff_def upt_rec[of 0] map_Suc_upt[symmetric] del: upt_Suc) 

lemma stopIndex_le: "stopIndex rt fn c n \<le> n"
  by (induction n arbitrary: c) (auto split: sum.splits)

lemma stopIndex_before:
  "i < stopIndex rt fn c n \<Longrightarrow> \<exists>e. fn (c + i) = Inl e \<and> rt e"
proof (induction n arbitrary: c i)
  case 0 then show ?case by simp
next
  case (Suc n)
  show ?case
  proof (cases i)
    case 0
    with Suc.prems show ?thesis by (auto split: sum.splits if_splits)
  next
    case (Suc j)
    with Suc.prems have "j < stopIndex rt fn (Suc c) n"
      by (auto split: sum.splits if_splits)
    from Suc.IH[OF this] Suc show ?thesis by simp
  qed
qed

lemma stopIndex_at:
  "stopIndex rt fn c n < n \<Longrightarrow> \<not> (\<exists>e. fn (c + stopIndex rt fn c n) = Inl e \<and> rt e)"
  by (induction n arbitrary: c) (auto split: sum.splits if_splits)

lemma fetchWithRetry_001_closed:
  "fetchWithRetry_001 fn retries delay tr =
     (let k = stopIndex retried_001 fn (calls tr) (nat retries) in
      (map_sum raised_001 (\<lambda>v. v) (fn (calls tr + k)),
       \<lparr>calls = calls tr + k + 1, sleeps = sleeps tr @ backoff delay k\<rparr>))"
proof (induction fn retries delay tr rule: fetchWithRetry_001.induct)
  case (1 fn retries delay tr)
  show ?case
  proof (cases "fn (calls tr)")
    case (Inr v)
    then show ?thesis
      by (cases "nat retries") (simp_all add: backoff_def fetchWithRetry_001.simps[of fn retries delay tr])
  next
    case (Inl e)
    show ?thesis
    proof (cases "retries > 0 \<and> retried_001 e")
      case True
      then obtain n where n: "nat retries = Suc n" "nat (retries - 1) = n"
        by (cases "nat retries") auto
      from True have c: "\<not> includesStr (errorMsg e) ''Requested entity was not found''"
        "0 < retries \<and> isRetryable_001 e"
        by (auto simp: retried_001_def entityNotFound_def)
      have ih: "fetchWithRetry_001 fn (retries - 1) (delay * 2) \<lparr>calls = calls tr + 1, sleeps = sleeps tr @ [delay]\<rparr> = 
         (let k = stopIndex retried_001 fn (Suc (calls tr)) n in
      (map_sum raised_001 (\<lambda>v. v) (fn (Suc (calls tr) + k)),
       \<lparr>calls = Suc (calls tr) + k + 1, sleeps = (sleeps tr @ [delay]) @ backoff (delay * 2) k\<rparr>))"
        using "1.IH"[OF Inl c] n by simp
      show ?thesis
        using Inl True c ih n
        by (simp add: Let_def backoff_Suc fetchWithRetry_001.simps[of fn retries delay tr])
    next
      case False
      then show ?thesis
        using Inl by (cases "nat retries") (auto simp: retried_001_def raised_001_def entityNotFound_def backoff_def fetchWithRetry_001.simps[of fn retries delay tr])
    qed
  qed
qed

lemma fetchWithRetry_002_closed:
  "fetchWithRetry_002 fn retries delay tr =
     (let k = stopIndex isRetryable_002 fn (calls tr) (nat retries) in
      (fn (calls tr + k),
       \<lparr>calls = calls tr + k + 1, sleeps = sleeps tr @ backoff delay k\<rparr>))"
proof (induction fn retries delay tr rule: fetchWithRetry_002.induct)
  case (1 fn retries delay tr)
  show ?case
  proof (cases "fn (calls tr)")
    case (Inr v)
    then show ?thesis
      by (cases "nat retries")
         (simp_all add: backoff_def fetchWithRetry_002.simps[of fn retries delay tr])
  next
    case (Inl e)
    show ?thesis
    proof (cases "retries > 0 \<and> isRetryable_002 e")
      case True
      then obtain n where n: "nat retries = Suc n" "nat (retries - 1) = n"
        by (cases "nat retries") auto
      have ih: "fetchWithRetry_002 fn (retries - 1) (delay * 2)
                  \<lparr>calls = calls tr + 1, sleeps = sleeps tr @ [delay]\<rparr> =
         (let k = stopIndex isRetryable_002 fn (Suc (calls tr)) n in
          (fn (Suc (calls tr) + k),
           \<lparr>calls = Suc (calls tr) + k + 1,
            sleeps = (sleeps tr @ [delay]) @ backoff (delay * 2) k\<rparr>))"
        using "1.IH"[OF Inl True] n by simp
      show ?thesis
        using Inl True ih n
        by (simp add: Let_def backoff_Suc fetchWithRetry_002.simps[of fn retries delay tr])
    next
      case False
      then show ?thesis
        using Inl
        by (cases "nat retries")
           (auto simp: backoff_def fetchWithRetry_002.simps[of fn retries delay tr])
    qed
  qed
qed

lemma stopIndex_unique:
  "k \<le> n \<Longrightarrow> (\<forall>i<k. \<exists>e. fn (c + i) = Inl e \<and> rt e) \<Longrightarrow>
   (k = n \<or> \<not> (\<exists>e. fn (c + k) = Inl e \<and> rt e)) \<Longrightarrow> stopIndex rt fn c n = k"
proof (induction n arbitrary: c k)
  case 0 then show ?case by simp
next
  case (Suc n)
  show ?case
  proof (cases k)
    case 0
    with Suc.prems show ?thesis by (auto split: sum.splits)
  next
    case (Suc j)
    with Suc.prems have 0: "\<exists>e. fn c = Inl e \<and> rt e" by (metis add.right_neutral zero_less_Suc)
    have "stopIndex rt fn (Suc c) n = j"
    proof (rule Suc.IH)
      show "j \<le> n" using Suc Suc.prems by simp
      show "\<forall>i<j. \<exists>e. fn (Suc c + i) = Inl e \<and> rt e"
        using Suc.prems(2) Suc by (metis Suc_less_eq add_Suc_shift)
      show "j = n \<or> \<not> (\<exists>e. fn (Suc c + j) = Inl e \<and> rt e)"
        using Suc.prems(3) Suc by simp
    qed
    with 0 show ?thesis by (auto simp: Suc)
  qed
qed

lemma retryContract_closed:
  assumes run: "run = (out, \<lparr>calls = stopIndex rt fn 0 (nat retries) + 1,
                   sleeps = backoff delay (stopIndex rt fn 0 (nat retries))\<rparr>)"
    and ok: "\<And>v. fn (stopIndex rt fn 0 (nat retries)) = Inr v \<longleftrightarrow> out = Inr v"
    and err: "\<And>e. fn (stopIndex rt fn 0 (nat retries)) = Inl e \<Longrightarrow> rt e \<Longrightarrow> out = Inl e"
  shows "retryContract rt fn retries delay run"
proof -
  let ?k = "stopIndex rt fn 0 (nat retries)"
  have le: "?k \<le> nat retries" by (rule stopIndex_le)
  have before: "\<forall>i<?k. \<exists>e. fn i = Inl e \<and> rt e"
    using stopIndex_before[of _ rt fn 0 "nat retries"] by simp
  have last: "\<forall>e. fn ?k = Inl e \<and> rt e \<longrightarrow> ?k = nat retries"
    using stopIndex_at[of rt fn 0 "nat retries"] le by fastforce
  show ?thesis
    unfolding retryContract_def Let_def run
    using le before last ok err by simp
qed

lemma fetchWithRetry_001_start:
  "fetchWithRetry_001 fn retries delay startTrace =
     (map_sum raised_001 (\<lambda>v. v) (fn (stopIndex retried_001 fn 0 (nat retries))),
      \<lparr>calls = stopIndex retried_001 fn 0 (nat retries) + 1,
       sleeps = backoff delay (stopIndex retried_001 fn 0 (nat retries))\<rparr>)"
  by (simp add: fetchWithRetry_001_closed startTrace_def Let_def)

lemma fetchWithRetry_002_start:
  "fetchWithRetry_002 fn retries delay startTrace =
     (fn (stopIndex isRetryable_002 fn 0 (nat retries)),
      \<lparr>calls = stopIndex isRetryable_002 fn 0 (nat retries) + 1,
       sleeps = backoff delay (stopIndex isRetryable_002 fn 0 (nat retries))\<rparr>)"
  by (simp add: fetchWithRetry_002_closed startTrace_def Let_def)

text \<open>
  Claim C2. For every operation \<open>fn\<close> (every sequence of outcomes), budget \<open>retries\<close> and
  base \<open>delay\<close>, both versions of \<open>fetchWithRetry\<close> meet \<open>retryContract\<close>: at most
  \<open>retries + 1\<close> invocations are made; the delays slept are \<open>delay * 2 ^ i\<close> for
  \<open>i = 0, 1, ...\<close>, one before each invocation after the first; every invocation before the
  last failed with a failure that the version retries, so a returned value is the first
  successful result; and when the last invocation fails with such a failure too, the
  budget is used up (\<open>retries + 1\<close> invocations) and that last error is thrown. A failure is
  retried by the version of part_001 when it carries a 429 signal and no entity-not-found
  phrase, by the version of part_002 when it carries a 429 or a quota signal.
\<close>

theorem fetchWithRetry_contract:
  "retryContract retried_001 fn retries delay (fetchWithRetry_001 fn retries delay startTrace)
   \<and> retryContract isRetryable_002 fn retries delay (fetchWithRetry_002 fn retries delay startTrace)"
proof
  show "retryContract retried_001 fn retries delay (fetchWithRetry_001 fn retries delay startTrace)"
  proof (rule retryContract_closed[OF fetchWithRetry_001_start])
    fix v show "fn (stopIndex retried_001 fn 0 (nat retries)) = Inr v \<longleftrightarrow>
       map_sum raised_001 (\<lambda>v. v) (fn (stopIndex retried_001 fn 0 (nat retries))) = Inr v"
      by (cases "fn (stopIndex retried_001 fn 0 (nat retries))") auto
  next
    fix e assume "fn (stopIndex retried_001 fn 0 (nat retries)) = Inl e" "retried_001 e"
    then show "map_sum raised_001 (\<lambda>v. v) (fn (stopIndex retried_001 fn 0 (nat retries))) = Inl e"
      by (simp add: raised_001_def retried_001_def)
  qed
  show "retryContract isRetryable_002 fn retries delay (fetchWithRetry_002 fn retries delay startTrace)"
    by (rule retryContract_closed[OF fetchWithRetry_002_start]) auto
qed

lemma failsTwice_stop: "stopIndex rt failsTwice 0 2 = (if rt rateLimited then 2 else 0)"
  by (simp add: numeral_2_eq_2 failsTwice_def)

lemma retried_rateLimited: "retried_001 rateLimited" "isRetryable_002 rateLimited"
  by (simp_all add: retried_001_def isRetryable_001_def isRetryable_002_def entityNotFound_def
      errorMsg_def rateLimited_def)

lemma backoff_2: "backoff delay 2 = [delay, delay * 2]"
  by (simp add: backoff_def numeral_2_eq_2)

lemma failsTwice_run:
  "fetchWithRetry_001 failsTwice 2 2000 startTrace = (Inr ''done'', \<lparr>calls = 3, sleeps = [2000, 4000]\<rparr>)"
  "fetchWithRetry_002 failsTwice 2 2000 startTrace = (Inr ''done'', \<lparr>calls = 3, sleeps = [2000, 4000]\<rparr>)"
  by (simp_all add: fetchWithRetry_001_start fetchWithRetry_002_start failsTwice_stop
      retried_rateLimited backoff_2) (simp_all add: failsTwice_def)

lemma alwaysFails_stop:
  "stopIndex rt (alwaysFails e) c n = (if rt e then n else 0)"
  by (induction n arbitrary: c) (auto simp: alwaysFails_def)

lemma alwaysFails_run:
  "fetchWithRetry_001 (alwaysFails rateLimited) 2 2000 startTrace =
     (Inl rateLimited, \<lparr>calls = 3, sleeps = [2000, 4000]\<rparr>)"
  by (simp add: fetchWithRetry_001_start alwaysFails_stop retried_rateLimited backoff_2)
     (simp add: alwaysFails_def raised_001_def retried_rateLimited[unfolded retried_001_def])

text \<open>
  With the defaults 2 and 2000: an operation failing twice with a 429 error succeeds at
  the third invocation, after sleeping 2000 and then 4000 milliseconds; an operation that
  always fails with a 429 error is invoked three times and its last error is thrown.
\<close>

theorem fetchWithRetry_contract_witness:
  "fetchWithRetry_001 failsTwice 2 2000 startTrace = (Inr ''done'', \<lparr>calls = 3, sleeps = [2000, 4000]\<rparr>)
   \<and> retryContract retried_001 failsTwice 2 2000 (Inr ''done'', \<lparr>calls = 3, sleeps = [2000, 4000]\<rparr>)
   \<and> fetchWithRetry_002 failsTwice 2 2000 startTrace = (Inr ''done'', \<lparr>calls = 3, sleeps = [2000, 4000]\<rparr>)
   \<and> retryContract isRetryable_002 failsTwice 2 2000 (Inr ''done'', \<lparr>calls = 3, sleeps = [2000, 4000]\<rparr>)
   \<and> fetchWithRetry_001 (alwaysFails rateLimited) 2 2000 startTrace =
       (Inl rateLimited, \<lparr>calls = 3, sleeps = [2000, 4000]\<rparr>)
   \<and> retryContract retried_001 (alwaysFails rateLimited) 2 2000
         (Inl rateLimited, \<lparr>calls = 3, sleeps = [2000, 4000]\<rparr>)"
  using fetchWithRetry_contract [of failsTwice 2 2000]
    fetchWithRetry_contract [of "alwaysFails rateLimited" 2 2000]
  by (simp add: failsTwice_run alwaysFails_run)

lemma calls_grow_001: "calls tr < calls (snd (fetchWithRetry_001 fn retries delay tr))"
  by (simp add: fetchWithRetry_001_closed Let_def)

lemma calls_grow_002: "calls tr < calls (snd (fetchWithRetry_002 fn retries delay tr))"
  by (simp add: fetchWithRetry_002_closed Let_def)

lemma message_includes:
  "(case message e of None \<Rightarrow> False | Some m \<Rightarrow> includesStr m (c # cs)) = msgHas e (c # cs)"
  by (simp add: msgHas_def errorMsg_def split: option.splits)

lemma isRetryable_002_msgHas:
  "isRetryable_002 e \<longleftrightarrow> msgHas e ''429'' \<or> status e = Some 429 \<or> msgHas e ''quota''"
  by (simp add: isRetryable_002_def message_includes)

lemma retried_001_msgHas:
  "retried_001 e \<longleftrightarrow> \<not> msgHas e ''Requested entity was not found''
     \<and> (msgHas e ''429'' \<or> status e = Some 429)"
  by (simp add: retried_001_def isRetryable_001_def entityNotFound_def msgHas_def)

text \<open>
  Claim C4, as amended. A failure of the invocation about to be made is retried exactly
  when retries remain and, in the version of part_001, its message does not contain the
  entity-not-found phrase and it carries a 429 signal (message containing \<open>429\<close> or status
  429), in the version of part_002, it carries a 429 signal or its message contains
  \<open>quota\<close>. A retried failure costs one sleep of \<open>delay\<close> and is followed by at least one
  more invocation; any other failure ends the run at once: the error is thrown unchanged,
  except that the version of part_001 throws \<open>KEY_NOT_FOUND\<close> for the phrase.
\<close>

theorem fetchWithRetry_classification:
  fixes fn :: "nat \<Rightarrow> jsError + 'a"
  assumes "fn (calls tr) = Inl e"
  shows "(if 0 < retries \<and> \<not> msgHas e ''Requested entity was not found''
              \<and> (msgHas e ''429'' \<or> status e = Some 429)
          then fetchWithRetry_001 fn retries delay tr =
                 fetchWithRetry_001 fn (retries - 1) (delay * 2)
                   \<lparr>calls = calls tr + 1, sleeps = sleeps tr @ [delay]\<rparr>
               \<and> calls tr + 1 < calls (snd (fetchWithRetry_001 fn retries delay tr))
          else fetchWithRetry_001 fn retries delay tr =
                 (Inl (if msgHas e ''Requested entity was not found''
                       then newError ''KEY_NOT_FOUND'' else e),
                  \<lparr>calls = calls tr + 1, sleeps = sleeps tr\<rparr>))
       \<and> (if 0 < retries \<and> (msgHas e ''429'' \<or> status e = Some 429 \<or> msgHas e ''quota'')
          then fetchWithRetry_002 fn retries delay tr =
                 fetchWithRetry_002 fn (retries - 1) (delay * 2)
                   \<lparr>calls = calls tr + 1, sleeps = sleeps tr @ [delay]\<rparr>
               \<and> calls tr + 1 < calls (snd (fetchWithRetry_002 fn retries delay tr))
          else fetchWithRetry_002 fn retries delay tr =
                 (Inl e, \<lparr>calls = calls tr + 1, sleeps = sleeps tr\<rparr>))"
proof -
  have g1: "calls tr + 1 < calls (snd (fetchWithRetry_001 fn (retries - 1) (delay * 2)
                   \<lparr>calls = calls tr + 1, sleeps = sleeps tr @ [delay]\<rparr>))"
    using calls_grow_001[of "\<lparr>calls = calls tr + 1, sleeps = sleeps tr @ [delay]\<rparr>"] by simp
  have g2: "calls tr + 1 < calls (snd (fetchWithRetry_002 fn (retries - 1) (delay * 2)
                   \<lparr>calls = calls tr + 1, sleeps = sleeps tr @ [delay]\<rparr>))"
    using calls_grow_002[of "\<lparr>calls = calls tr + 1, sleeps = sleeps tr @ [delay]\<rparr>"] by simp
  have u1: "fetchWithRetry_001 fn retries delay tr =
     (if msgHas e ''Requested entity was not found''
      then (Inl (newError ''KEY_NOT_FOUND''), \<lparr>calls = calls tr + 1, sleeps = sleeps tr\<rparr>)
      else if 0 < retries \<and> (msgHas e ''429'' \<or> status e = Some 429)
      then fetchWithRetry_001 fn (retries - 1) (delay * 2)
                   \<lparr>calls = calls tr + 1, sleeps = sleeps tr @ [delay]\<rparr>
      else (Inl e, \<lparr>calls = calls tr + 1, sleeps = sleeps tr\<rparr>))"
    using assms
    by (auto simp add: fetchWithRetry_001.simps[of fn retries delay tr] msgHas_def isRetryable_001_def)
  have u2: "fetchWithRetry_002 fn retries delay tr =
     (if 0 < retries \<and> (msgHas e ''429'' \<or> status e = Some 429 \<or> msgHas e ''quota'')
      then fetchWithRetry_002 fn (retries - 1) (delay * 2)
                   \<lparr>calls = calls tr + 1, sleeps = sleeps tr @ [delay]\<rparr>
      else (Inl e, \<lparr>calls = calls tr + 1, sleeps = sleeps tr\<rparr>))"
    using assms
    by (auto simp add: fetchWithRetry_002.simps[of fn retries delay tr] isRetryable_002_msgHas)
  show ?thesis
  proof
    show "if 0 < retries \<and> \<not> msgHas e ''Requested entity was not found''
              \<and> (msgHas e ''429'' \<or> status e = Some 429)
          then fetchWithRetry_001 fn retries delay tr =
                 fetchWithRetry_001 fn (retries - 1) (delay * 2)
                   \<lparr>calls = calls tr + 1, sleeps = sleeps tr @ [delay]\<rparr>
               \<and> calls tr + 1 < calls (snd (fetchWithRetry_001 fn retries delay tr))
          else fetchWithRetry_001 fn retries delay tr =
                 (Inl (if msgHas e ''Requested entity was not found''
                       then newError ''KEY_NOT_FOUND'' else e),
                  \<lparr>calls = calls tr + 1, sleeps = sleeps tr\<rparr>)"
      using g1 by (subst (1 2 3) u1) auto
    show "if 0 < retries \<and> (msgHas e ''429'' \<or> status e = Some 429 \<or> msgHas e ''quota'')
          then fetchWithRetry_002 fn retries delay tr =
                 fetchWithRetry_002 fn (retries - 1) (delay * 2)
                   \<lparr>calls = calls tr + 1, sleeps = sleeps tr @ [delay]\<rparr>
               \<and> calls tr + 1 < calls (snd (fetchWithRetry_002 fn retries delay tr))
          else fetchWithRetry_002 fn retries delay tr =
                 (Inl e, \<lparr>calls = calls tr + 1, sleeps = sleeps tr\<rparr>)"
      using g2 by (subst (1 2 3) u2) auto
  qed
qed

lemma examples_msgHas:
  "msgHas rateLimited ''429''"
  "\<not> msgHas rateLimited ''Requested entity was not found''"
  "msgHas notFoundError ''Requested entity was not found''"
  "\<not> msgHas notFoundError ''429''"
  "\<not> msgHas notFoundError ''quota''"
  "msgHas quotaError ''quota''"
  "\<not> msgHas quotaError ''429''"
  "\<not> msgHas quotaError ''Requested entity was not found''"
  by (simp_all add: msgHas_def errorMsg_def rateLimited_def notFoundError_def quotaError_def)

lemma examples_status:
  "status rateLimited = None" "status notFoundError = None" "status quotaError = None"
  by (simp_all add: rateLimited_def notFoundError_def quotaError_def)

text \<open>
  Claim C3, as amended. In the version of part_001 a failure whose message contains the
  entity-not-found phrase is never retried: the run ends with that invocation and throws
  \<open>KEY_NOT_FOUND\<close>; when it is the first failure, after exactly one invocation. The version
  of part_002 has no such check: the failure is treated like any other, thrown unchanged
  after one invocation when it carries no 429 or quota signal, and retried when it does.
\<close>

theorem entity_not_found_by_version:
  fixes fn :: "nat \<Rightarrow> jsError + 'a"
  shows "((\<forall>i<k. \<exists>e'. fn i = Inl e' \<and> retried_001 e') \<and> k \<le> nat retries
            \<and> fn k = Inl e \<and> msgHas e ''Requested entity was not found''
          \<longrightarrow> fetchWithRetry_001 fn retries delay startTrace =
                (Inl (newError ''KEY_NOT_FOUND''), \<lparr>calls = k + 1, sleeps = backoff delay k\<rparr>))
       \<and> (fn 0 = Inl e \<and> msgHas e ''Requested entity was not found''
            \<and> \<not> (msgHas e ''429'' \<or> status e = Some 429 \<or> msgHas e ''quota'')
          \<longrightarrow> fetchWithRetry_002 fn retries delay startTrace =
                (Inl e, \<lparr>calls = 1, sleeps = []\<rparr>))
       \<and> (fn 0 = Inl e \<and> msgHas e ''Requested entity was not found''
            \<and> (msgHas e ''429'' \<or> status e = Some 429 \<or> msgHas e ''quota'') \<and> 0 < retries
          \<longrightarrow> 1 < calls (snd (fetchWithRetry_002 fn retries delay startTrace)))"
proof (intro conjI impI)
  assume a: "(\<forall>i<k. \<exists>e'. fn i = Inl e' \<and> retried_001 e') \<and> k \<le> nat retries
            \<and> fn k = Inl e \<and> msgHas e ''Requested entity was not found''"
  then have nr: "\<not> retried_001 e" by (simp add: retried_001_msgHas)
  have "stopIndex retried_001 fn 0 (nat retries) = k"
    using a nr by (intro stopIndex_unique) auto
  then show "fetchWithRetry_001 fn retries delay startTrace =
                (Inl (newError ''KEY_NOT_FOUND''), \<lparr>calls = k + 1, sleeps = backoff delay k\<rparr>)"
    using a by (simp add: fetchWithRetry_001_start raised_001_def entityNotFound_def msgHas_def)
next
  assume a: "fn 0 = Inl e \<and> msgHas e ''Requested entity was not found''
            \<and> \<not> (msgHas e ''429'' \<or> status e = Some 429 \<or> msgHas e ''quota'')"
  then have "stopIndex isRetryable_002 fn 0 (nat retries) = 0"
    by (intro stopIndex_unique) (auto simp: isRetryable_002_msgHas)
  then show "fetchWithRetry_002 fn retries delay startTrace = (Inl e, \<lparr>calls = 1, sleeps = []\<rparr>)"
    using a by (simp add: fetchWithRetry_002_start backoff_def)
next
  assume a: "fn 0 = Inl e \<and> msgHas e ''Requested entity was not found''
            \<and> (msgHas e ''429'' \<or> status e = Some 429 \<or> msgHas e ''quota'') \<and> 0 < retries"
  then obtain n where "nat retries = Suc n" by (cases "nat retries") auto
  then have "0 < stopIndex isRetryable_002 fn 0 (nat retries)"
    using a by (simp add: isRetryable_002_msgHas)
  then show "1 < calls (snd (fetchWithRetry_002 fn retries delay startTrace))"
    by (simp add: fetchWithRetry_002_start)
qed

theorem entity_not_found_by_version_witness:
  "fetchWithRetry_001 (alwaysFails notFoundError) 2 2000 startTrace =
     (Inl (newError ''KEY_NOT_FOUND''), \<lparr>calls = 1, sleeps = []\<rparr>)
   \<and> fetchWithRetry_002 (alwaysFails notFoundError) 2 2000 startTrace =
     (Inl notFoundError, \<lparr>calls = 1, sleeps = []\<rparr>)"
  using entity_not_found_by_version [of 0 "alwaysFails notFoundError" 2 notFoundError 2000]
  by (simp add: examples_msgHas examples_status alwaysFails_def backoff_def)

text \<open>
  Claim C3 as stated fails on the version of part_002: an operation failing with the
  entity-not-found phrase is invoked once, and the error thrown is the original one, not
  \<open>KEY_NOT_FOUND\<close>.
\<close>

theorem entity_not_found_002_counterexample:
  "msgHas notFoundError ''Requested entity was not found''
   \<and> fetchWithRetry_002 (alwaysFails notFoundError) 2 2000 startTrace =
       (Inl notFoundError, \<lparr>calls = 1, sleeps = []\<rparr>)
   \<and> notFoundError \<noteq> newError ''KEY_NOT_FOUND''"
  by (simp add: examples_msgHas fetchWithRetry_002_start alwaysFails_stop isRetryable_002_msgHas
      examples_status backoff_def)
     (simp add: alwaysFails_def notFoundError_def newError_def)

text \<open>
  Claim C4 as stated fails on the version of part_001, which knows no quota signal: an
  operation failing with a quota error is invoked once and the error is thrown.
\<close>

theorem quota_001_counterexample:
  "msgHas quotaError ''quota''
   \<and> fetchWithRetry_001 (alwaysFails quotaError) 2 2000 startTrace =
       (Inl quotaError, \<lparr>calls = 1, sleeps = []\<rparr>)"
  by (simp add: examples_msgHas fetchWithRetry_001_start alwaysFails_stop retried_001_msgHas
      examples_status backoff_def)
     (simp add: alwaysFails_def raised_001_def entityNotFound_def msgHas_def[symmetric] examples_msgHas)

text \<open>
  A 429 failure is retried by both versions; a quota failure is retried by the version of
  part_002 and ends the run in the version of part_001.
\<close>

theorem fetchWithRetry_classification_witness:
  "failsTwice (calls startTrace) = Inl rateLimited
   \<and> calls startTrace + 1 < calls (snd (fetchWithRetry_001 failsTwice 2 2000 startTrace))
   \<and> calls startTrace + 1 < calls (snd (fetchWithRetry_002 failsTwice 2 2000 startTrace))
   \<and> alwaysFails quotaError (calls startTrace) = Inl quotaError
   \<and> fetchWithRetry_001 (alwaysFails quotaError) 2 2000 startTrace =
       (Inl quotaError, \<lparr>calls = calls startTrace + 1, sleeps = sleeps startTrace\<rparr>)
   \<and> calls startTrace + 1 < calls (snd (fetchWithRetry_002 (alwaysFails quotaError) 2 2000 startTrace))"
  using fetchWithRetry_classification [of failsTwice startTrace rateLimited 2 2000]
    fetchWithRetry_classification [of "alwaysFails quotaError" startTrace quotaError 2 2000]
  by (auto simp add: examples_msgHas examples_status alwaysFails_def failsTwice_def startTrace_def)

subsection \<open>Rounding to doubles and the canvas size\<close>

lemma roundEven_error: "\<bar>of_int (roundEven y) - y\<bar> \<le> 1 / 2"
proof -
  let ?f = "\<lfloor>y\<rfloor>"
  let ?d = "y - of_int ?f"
  have d: "0 \<le> ?d" "?d < 1" by linarith+
  consider "?d < 1 / 2" | "1 / 2 < ?d" | "?d = 1 / 2" by linarith
  then show ?thesis
  proof cases
    case 1
    then have "roundEven y = ?f" by (simp add: roundEven_def Let_def)
    with 1 d show ?thesis by simp
  next
    case 2
    then have "roundEven y = ?f + 1" by (simp add: roundEven_def Let_def)
    with 2 d show ?thesis by simp
  next
    case 3
    then have "roundEven y = ?f \<or> roundEven y = ?f + 1" by (simp add: roundEven_def Let_def)
    with 3 show ?thesis by auto
  qed
qed

lemma pow_le_floor:
  fixes x :: rat
  assumes "0 < \<lfloor>x\<rfloor>"
  shows "2 ^ nat (bitlen \<lfloor>x\<rfloor> - 1) \<le> x" "x < 2 ^ nat (bitlen \<lfloor>x\<rfloor>)"
proof -
  from bitlen_bounds[OF assms]
  have b: "2 ^ nat (bitlen \<lfloor>x\<rfloor> - 1) \<le> \<lfloor>x\<rfloor>" "\<lfloor>x\<rfloor> < 2 ^ nat (bitlen \<lfloor>x\<rfloor>)" by blast+
  have "(of_int (2 ^ nat (bitlen \<lfloor>x\<rfloor> - 1)) :: rat) \<le> of_int \<lfloor>x\<rfloor>"
    using b(1) by (rule iffD2[OF of_int_le_iff])
  also have "\<dots> \<le> x" by (rule of_int_floor_le)
  finally show "2 ^ nat (bitlen \<lfloor>x\<rfloor> - 1) \<le> x" by (simp only: of_int_power of_int_numeral)
  from b(2) have "\<lfloor>x\<rfloor> + 1 \<le> 2 ^ nat (bitlen \<lfloor>x\<rfloor>)" by linarith
  then have "(of_int (\<lfloor>x\<rfloor> + 1) :: rat) \<le> of_int (2 ^ nat (bitlen \<lfloor>x\<rfloor>))"
    by (rule iffD2[OF of_int_le_iff])
  moreover have "x < of_int (\<lfloor>x\<rfloor> + 1)" by linarith
  ultimately have "x < of_int (2 ^ nat (bitlen \<lfloor>x\<rfloor>))" by linarith
  then show "x < 2 ^ nat (bitlen \<lfloor>x\<rfloor>)" by (simp only: of_int_power of_int_numeral)
qed


lemma pow_ceiling:
  fixes z :: rat
  assumes "1 < z"
  shows "z \<le> 2 ^ nat (bitlen (\<lceil>z\<rceil> - 1))" "2 ^ nat (bitlen (\<lceil>z\<rceil> - 1) - 1) < z"
    "0 < bitlen (\<lceil>z\<rceil> - 1)"
proof -
  let ?k = "\<lceil>z\<rceil> - 1"
  from assms have k: "0 < ?k" by linarith
  from bitlen_bounds[OF k]
  have b: "2 ^ nat (bitlen ?k - 1) \<le> ?k" "?k < 2 ^ nat (bitlen ?k)" by blast+
  from b(2) have "\<lceil>z\<rceil> \<le> 2 ^ nat (bitlen ?k)" by linarith
  then have "(of_int \<lceil>z\<rceil> :: rat) \<le> of_int (2 ^ nat (bitlen ?k))"
    by (rule iffD2[OF of_int_le_iff])
  moreover have "z \<le> of_int \<lceil>z\<rceil>" by (rule le_of_int_ceiling)
  ultimately have "z \<le> of_int (2 ^ nat (bitlen ?k))" by linarith
  then show "z \<le> 2 ^ nat (bitlen ?k)" by (simp only: of_int_power of_int_numeral)
  have "(of_int (2 ^ nat (bitlen ?k - 1)) :: rat) \<le> of_int ?k"
    using b(1) by (rule iffD2[OF of_int_le_iff])
  moreover have "of_int ?k < z" by linarith
  ultimately have "(of_int (2 ^ nat (bitlen ?k - 1)) :: rat) < z" by linarith
  then show "2 ^ nat (bitlen ?k - 1) < z" by (simp only: of_int_power of_int_numeral)
  show "0 < bitlen ?k"
    using k bitlen_eq_zero_iff[of ?k] bitlen_nonneg[of ?k] by linarith
qed

lemma powi_nonneg: "0 \<le> e \<Longrightarrow> (2::rat) powi e = 2 ^ nat e"
  by (simp add: power_int_def)

lemma powi_neg: "e < 0 \<Longrightarrow> (2::rat) powi e = 1 / 2 ^ nat (- e)"
  by (simp add: power_int_def inverse_eq_divide power_one_over)

lemma binade_bounds:
  assumes "0 < x"
  shows "2 powi (binade x) \<le> x" "x < 2 powi (binade x + 1)"
proof -
  have "2 powi (binade x) \<le> x \<and> x < 2 powi (binade x + 1)"
  proof (cases "1 \<le> x")
    case True
    then have n: "0 < \<lfloor>x\<rfloor>" by linarith
    have e: "binade x = bitlen \<lfloor>x\<rfloor> - 1" using True by (simp only: binade_def if_True)
    have pos: "0 < bitlen \<lfloor>x\<rfloor>"
      using n bitlen_eq_zero_iff[of "\<lfloor>x\<rfloor>"] bitlen_nonneg[of "\<lfloor>x\<rfloor>"] by linarith
    have "2 powi (binade x) = (2::rat) ^ nat (bitlen \<lfloor>x\<rfloor> - 1)"
      unfolding e using pos by (intro powi_nonneg) linarith
    moreover have "2 powi (binade x + 1) = (2::rat) ^ nat (bitlen \<lfloor>x\<rfloor>)"
      unfolding e using pos by (simp only: diff_add_cancel) (intro powi_nonneg, linarith)
    ultimately show ?thesis using pow_le_floor[OF n] by simp
  next
    case False
    let ?bl = "bitlen (\<lceil>1 / x\<rceil> - 1)"
    from False assms have z: "1 < 1 / x" by simp
    have e: "binade x = - ?bl" using False by (simp only: binade_def if_False)
    note c = pow_ceiling[OF z]
    have P: "(0::rat) < 2 ^ nat ?bl" "(0::rat) < 2 ^ nat (?bl - 1)" by simp_all
    have lo: "1 / 2 ^ nat ?bl \<le> x"
    proof -
      from c(1) assms have "1 \<le> x * 2 ^ nat ?bl"
        by (simp add: pos_divide_le_eq mult.commute)
      then show ?thesis using P(1) by (simp add: pos_divide_le_eq)
    qed
    have hi: "x < 1 / 2 ^ nat (?bl - 1)"
    proof -
      from c(2) assms have "x * 2 ^ nat (?bl - 1) < 1"
        by (simp add: pos_less_divide_eq mult.commute)
      then show ?thesis using P(2) by (simp add: pos_less_divide_eq)
    qed
    have 1: "2 powi (binade x) = (1::rat) / 2 ^ nat ?bl"
      unfolding e using c(3) by (subst powi_neg) simp_all
    have 2: "2 powi (binade x + 1) = (1::rat) / 2 ^ nat (?bl - 1)"
    proof (cases "?bl = 1")
      case True
      then show ?thesis unfolding e by simp
    next
      case F: False
      with c(3) have neg: "- ?bl + 1 < 0" by linarith
      have "nat (- (- ?bl + 1)) = nat (?bl - 1)" by simp
      then show ?thesis unfolding e using powi_neg[OF neg] by simp
    qed
    show ?thesis using lo hi 1 2 by simp
  qed
  then show "2 powi (binade x) \<le> x" "x < 2 powi (binade x + 1)" by blast+
qed

lemma roundDouble_zero: "roundDouble 0 = 0"
  by (simp add: roundDouble_def)

lemma roundDouble_error:
  assumes "2 powi (- 1022) \<le> x"
  shows "\<bar>roundDouble x - x\<bar> \<le> x / 2 ^ 53"
proof -
  have "(0::rat) < 2 powi (- 1022)" by (rule zero_less_power_int) simp
  with assms have pos: "0 < x" by linarith
  let ?e = "binade x"
  have e: "- 1022 \<le> ?e"
  proof (rule ccontr)
    assume "\<not> - 1022 \<le> ?e"
    then have "?e + 1 \<le> - 1022" by linarith
    then have "(2::rat) powi (?e + 1) \<le> 2 powi (- 1022)"
      by (intro power_int_increasing) simp_all
    with binade_bounds(2)[OF pos] assms show False by linarith
  qed
  let ?q = "(2::rat) powi (?e - 52)"
  have q: "0 < ?q" by (rule zero_less_power_int) simp
  have rd: "roundDouble x = ?q * of_int (roundEven (x / ?q))"
    using pos e by (simp add: roundDouble_def Let_def max_def)
  have "\<bar>roundDouble x - x\<bar> = ?q * \<bar>of_int (roundEven (x / ?q)) - x / ?q\<bar>"
  proof -
    have "roundDouble x - x = ?q * (of_int (roundEven (x / ?q)) - x / ?q)"
      using q by (simp add: rd right_diff_distrib)
    then show ?thesis using q by (simp add: abs_mult)
  qed
  also have "\<dots> \<le> ?q * (1 / 2)"
    using roundEven_error[of "x / ?q"] q by (intro mult_left_mono) simp_all
  also have "?q * (1 / 2) = 2 powi ?e / 2 ^ 53"
  proof -
    have "?q = 2 powi ?e / 2 powi 52" by (rule power_int_diff) simp
    then show ?thesis by simp
  qed
  also have "\<dots> \<le> x / 2 ^ 53"
    using binade_bounds(1)[OF pos] by (intro divide_right_mono) simp_all
  finally show ?thesis .
qed

lemma roundDouble_between:
  assumes "2 powi (- 1022) \<le> x"
  shows "x - x / 2 ^ 53 \<le> roundDouble x" "roundDouble x \<le> x + x / 2 ^ 53"
proof -
  define d where "d = x / 2 ^ 53"
  from roundDouble_error[OF assms] have "\<bar>roundDouble x - x\<bar> \<le> d" by (simp only: d_def)
  then have "x - d \<le> roundDouble x" "roundDouble x \<le> x + d" by linarith+
  then show "x - x / 2 ^ 53 \<le> roundDouble x" "roundDouble x \<le> x + x / 2 ^ 53"
    by (simp_all only: d_def)
qed

lemma normal_small: "(2::rat) powi (- 1022) \<le> 1 / 2 ^ 33"
proof -
  have "(2::rat) powi (- 1022) \<le> 2 powi (- 33)"
    by (intro power_int_increasing) simp_all
  also have "\<dots> = 1 / 2 ^ 33" by (simp add: powi_neg)
  finally show ?thesis .
qed

lemma scaled_edge:
  fixes a b n :: nat
  assumes "0 < n" "n < b" "a \<le> b" "b < 2 ^ 32"
  shows "0 \<le> roundDouble (of_nat a * roundDouble (of_nat n / of_nat b))"
    and "\<bar>roundDouble (of_nat a * roundDouble (of_nat n / of_nat b))
          - of_nat a * of_nat n / of_nat b\<bar> < 1"
    and "\<bar>roundDouble (of_nat a * roundDouble (of_nat n / of_nat b))
          - of_nat a * of_nat n / of_nat b\<bar> \<le> 3 * (of_nat a * of_nat n / of_nat b) / 2 ^ 53"
proof -
  define u :: rat where "u = 1 / 2 ^ 53"
  define q :: rat where "q = of_nat n / of_nat b"
  define r where "r = roundDouble q"
  define x where "x = of_nat a * r"
  define y where "y = roundDouble x"
  define p :: rat where "p = of_nat a * q"
  have u: "0 < u" "u \<le> 1 / 2" "u * 2 ^ 34 \<le> 1 / 4" by (simp_all add: u_def)
  have b: "(0::rat) < of_nat b" "(of_nat b :: rat) < 2 ^ 32"
  proof -
    show "(0::rat) < of_nat b" using assms(2) by simp
    show "(of_nat b :: rat) < 2 ^ 32"
      using assms(4) by (metis of_nat_less_iff of_nat_numeral of_nat_power)
  qed
  have q: "0 < q" "q < 1" "1 / 2 ^ 32 \<le> q"
  proof -
    show "0 < q" using assms(1,2) by (simp add: q_def)
    show "q < 1" using assms(2) by (simp add: q_def)
    have "(1::rat) \<le> of_nat n" using assms(1) by simp
    then have "1 / of_nat b \<le> q"
      unfolding q_def using b(1) by (intro divide_right_mono) simp_all
    moreover have "(1::rat) / 2 ^ 32 \<le> 1 / of_nat b"
      using b by (intro divide_left_mono) simp_all
    ultimately show "1 / 2 ^ 32 \<le> q" by linarith
  qed
  have qn: "2 powi (- 1022) \<le> q"
    using normal_small q(3) by (simp add: field_simps) 
  have r: "q - q * u \<le> r" "r \<le> q + q * u"
    using roundDouble_between[OF qn] by (simp_all add: r_def u_def)
  have qu: "q * u \<le> q / 2" using q(1) u(2) by (simp add: field_simps)
  have rpos: "q / 2 \<le> r" using r(1) qu by linarith
  have pa: "p \<le> of_nat a" "0 \<le> p" "p < 2 ^ 32"
  proof -
    have "of_nat a * q \<le> of_nat a * 1" using q(2) by (intro mult_left_mono) simp_all
    then show "p \<le> of_nat a" by (simp add: p_def)
    show "0 \<le> p" using q(1) by (simp add: p_def)
    have "(of_nat a :: rat) \<le> of_nat b" using assms(3) by simp
    with b(2) \<open>p \<le> of_nat a\<close> show "p < 2 ^ 32" by linarith
  qed
  have main: "0 \<le> y \<and> \<bar>y - p\<bar> \<le> 3 * u * p"
  proof (cases "a = 0")
    case True
    then show ?thesis by (simp add: y_def x_def p_def roundDouble_zero)
  next
    case False
    then have a1: "(1::rat) \<le> of_nat a" by simp
    have xr: "of_nat a * (q - q * u) \<le> x" "x \<le> of_nat a * (q + q * u)"
      unfolding x_def using r by (intro mult_left_mono; simp)+
    then have xp: "p - p * u \<le> x" "x \<le> p + p * u"
      by (simp_all add: p_def algebra_simps)
    have "q / 2 \<le> of_nat a * r"
    proof -
      have "1 * r \<le> of_nat a * r" using a1 rpos q(1) by (intro mult_right_mono) simp_all
      with rpos show ?thesis by simp
    qed
    then have "1 / 2 ^ 33 \<le> x" using q(3) by (simp add: x_def field_simps)
    with normal_small have xn: "2 powi (- 1022) \<le> x" by linarith
    have y: "x - x * u \<le> y" "y \<le> x + x * u"
      using roundDouble_between[OF xn] by (simp_all add: y_def u_def)
    have xpos: "0 \<le> x" using \<open>1 / 2 ^ 33 \<le> x\<close> by simp
    have 1: "x * u \<le> (p + p * u) * u" using xp(2) u(1) by (intro mult_right_mono) simp_all
    have 2: "p * u * u \<le> p * u * 1" using pa(2) u by (intro mult_left_mono) simp_all
    have up: "y \<le> p + 3 * u * p"
      using y(2) xp(2) 1 2 by (simp add: algebra_simps)
    have 3: "x * u \<le> (p + p * u) * u" by (rule 1)
    have lo: "p - 3 * u * p \<le> y"
      using y(1) xp(1) 3 2 by (simp add: algebra_simps)
    have "x * u \<le> x * 1" using xpos u by (intro mult_left_mono) simp_all
    then have "0 \<le> y" using y(1) by simp
    with up lo show ?thesis by (simp add: abs_le_iff)
  qed
  have small: "3 * u * p < 1"
  proof -
    have "3 * u * p \<le> 3 * u * 2 ^ 32" using pa(3) u(1) by (intro mult_left_mono) simp_all
    also have "\<dots> \<le> u * 2 ^ 34" using u(1) by simp
    also have "\<dots> < 1" using u(3) by linarith
    finally show ?thesis .
  qed
  have rel: "\<bar>y - p\<bar> \<le> 3 * p / 2 ^ 53" using main by (simp add: u_def)
  from main small have "0 \<le> y" "\<bar>y - p\<bar> < 1" by linarith+
  with rel show "0 \<le> roundDouble (of_nat a * roundDouble (of_nat n / of_nat b))"
    and "\<bar>roundDouble (of_nat a * roundDouble (of_nat n / of_nat b))
          - of_nat a * of_nat n / of_nat b\<bar> < 1"
    and "\<bar>roundDouble (of_nat a * roundDouble (of_nat n / of_nat b))
          - of_nat a * of_nat n / of_nat b\<bar> \<le> 3 * (of_nat a * of_nat n / of_nat b) / 2 ^ 53"
    by (simp_all add: y_def x_def r_def q_def p_def)
qed

lemma canvasDim_le_self: "0 \<le> x \<Longrightarrow> of_nat (canvasDim x) \<le> x"
proof -
  assume "0 \<le> x"
  then have "0 \<le> \<lfloor>x\<rfloor>" by simp
  then have "(of_nat (nat \<lfloor>x\<rfloor>) :: rat) = of_int \<lfloor>x\<rfloor>" by simp
  then show ?thesis by (simp add: canvasDim_def)
qed

lemma canvasDim_le_nat: "x \<le> of_nat n \<Longrightarrow> canvasDim x \<le> n"
proof -
  assume "x \<le> of_nat n"
  then have "\<lfloor>x\<rfloor> \<le> \<lfloor>(of_nat n :: rat)\<rfloor>" by (rule floor_mono)
  then show ?thesis by (simp add: canvasDim_def)
qed

lemma canvasDim_of_nat: "canvasDim (of_nat n) = n"
  by (simp add: canvasDim_def)

lemma canvasSize_zero:
  "w = 0 \<or> h = 0 \<Longrightarrow> fst (canvasSize w h B) = 0 \<or> snd (canvasSize w h B) = 0"
  by (auto simp: canvasSize_def optimizeSize_def canvasDim_def Let_def roundDouble_zero)

lemma canvasSize_fits:
  "max w h \<le> n \<Longrightarrow> canvasSize w h (of_nat n) = (w, h)"
  by (simp add: canvasSize_def optimizeSize_def Let_def canvasDim_of_nat)

lemma canvasSize_wide:
  "h < w \<Longrightarrow> n < w \<Longrightarrow> canvasSize w h (of_nat n) =
     (n, canvasDim (roundDouble (of_nat h * roundDouble (of_nat n / of_nat w))))"
  by (simp add: canvasSize_def optimizeSize_def Let_def canvasDim_of_nat)

lemma canvasSize_tall:
  "w \<le> h \<Longrightarrow> n < h \<Longrightarrow> canvasSize w h (of_nat n) =
     (canvasDim (roundDouble (of_nat w * roundDouble (of_nat n / of_nat h))), n)"
  by (simp add: canvasSize_def optimizeSize_def Let_def canvasDim_of_nat)

lemma scaled_dim:
  fixes a b n :: nat
  assumes "0 < n" "n < b" "a \<le> b" "b < 2 ^ 32"
  defines "d \<equiv> canvasDim (roundDouble (of_nat a * roundDouble (of_nat n / of_nat b)))"
  shows "d \<le> n" and "d \<le> a" and "\<bar>int d - int ((a * n) div b)\<bar> \<le> 1"
proof -
  define y where "y = roundDouble (of_nat a * roundDouble (of_nat n / of_nat b))"
  define p :: rat where "p = of_nat (a * n) / of_nat b"
  have b: "(0::rat) < of_nat b" using assms(1,2) by simp
  have y: "0 \<le> y" "\<bar>y - p\<bar> < 1"
    using scaled_edge[OF assms(1-4)] by (simp_all add: y_def p_def)
  have "a * n \<le> a * b" using assms(2) by simp
  then have "(of_nat (a * n) :: rat) \<le> of_nat (a * b)" by (simp only: of_nat_le_iff)
  then have pa: "p \<le> of_nat a" using b by (simp add: p_def divide_le_eq)
  have "a * n \<le> n * b" using assms(3) by (simp add: mult.commute)
  then have "(of_nat (a * n) :: rat) \<le> of_nat (n * b)" by (simp only: of_nat_le_iff)
  then have pn: "p \<le> of_nat n" using b by (simp add: p_def divide_le_eq)
  have fp: "\<lfloor>p\<rfloor> = int ((a * n) div b)"
    unfolding p_def by (rule floor_divide_of_nat_eq)
  have dy: "int d = \<lfloor>y\<rfloor>" using y(1) by (simp add: d_def y_def canvasDim_def)
  have "y < of_nat a + 1" using y(2) pa by linarith
  then have "y < of_int (int a + 1)" by simp
  then have "\<lfloor>y\<rfloor> < int a + 1" by (simp only: floor_less_iff)
  with dy show "d \<le> a" by linarith
  have "y < of_nat n + 1" using y(2) pn by linarith
  then have "y < of_int (int n + 1)" by simp
  then have "\<lfloor>y\<rfloor> < int n + 1" by (simp only: floor_less_iff)
  with dy show "d \<le> n" by linarith
  have "y \<le> p + 1" "p \<le> y + 1" using y(2) by linarith+
  then have "\<lfloor>y\<rfloor> \<le> \<lfloor>p + 1\<rfloor>" "\<lfloor>p\<rfloor> \<le> \<lfloor>y + 1\<rfloor>" by (simp_all only: floor_mono)
  then have "\<lfloor>y\<rfloor> \<le> \<lfloor>p\<rfloor> + 1" "\<lfloor>p\<rfloor> \<le> \<lfloor>y\<rfloor> + 1" by simp_all
  with dy fp show "\<bar>int d - int ((a * n) div b)\<bar> \<le> 1" by linarith
qed

lemma scaled_dim_exact:
  fixes a b n :: nat
  assumes "0 < n" "n < b" "a \<le> b" "b < 2 ^ 25"
  defines "d \<equiv> canvasDim (roundDouble (of_nat a * roundDouble (of_nat n / of_nat b)))"
  shows "d \<le> (a * n) div b" and "(a * n) div b \<le> d + 1"
    and "(a * n) mod b \<noteq> 0 \<Longrightarrow> d = (a * n) div b"
proof -
  define y where "y = roundDouble (of_nat a * roundDouble (of_nat n / of_nat b))"
  define k where "k = a * n"
  define m where "m = k div b"
  define r where "r = k mod b"
  define p :: rat where "p = of_nat k / of_nat b"
  define B :: rat where "B = of_nat b"
  have b32: "b < 2 ^ 32"
  proof -
    have "(2::nat) ^ 25 \<le> 2 ^ 32" by (intro power_increasing) simp_all
    with assms(4) show ?thesis by linarith
  qed
  have B: "1 \<le> B" "B < 2 ^ 25"
  proof -
    show "1 \<le> B" using assms(1,2) by (simp add: B_def)
    show "B < 2 ^ 25"
      unfolding B_def using assms(4) by (metis of_nat_less_iff of_nat_numeral of_nat_power)
  qed
  have y: "0 \<le> y" "\<bar>y - p\<bar> \<le> 3 * p / 2 ^ 53"
    using scaled_edge[OF assms(1-3) b32] by (simp_all add: y_def p_def k_def)
  have "a * n \<le> b * b" using assms(2,3) by (intro mult_mono) simp_all
  then have "(of_nat k :: rat) \<le> of_nat (b * b)" unfolding k_def by (simp only: of_nat_le_iff)
  then have kB: "of_nat k \<le> B * B" by (simp add: B_def)
  have p0: "0 \<le> p" by (simp add: p_def)
  have pB: "p * B = of_nat k" using B(1) by (simp add: p_def B_def)
  have "p * B \<le> B * B" using kB pB by simp
  then have pleB: "p \<le> B" using B(1) by (simp add: mult_le_cancel_right)
  have "p * B \<le> 2 ^ 25 * 2 ^ 25"
  proof -
    have "p * B \<le> B * B" by fact
    also have "\<dots> \<le> 2 ^ 25 * 2 ^ 25" using B by (intro mult_mono) simp_all
    finally show ?thesis .
  qed
  then have small: "3 * p / 2 ^ 53 * B < 1" by simp
  have "\<bar>y - p\<bar> * B \<le> 3 * p / 2 ^ 53 * B"
    using y(2) B(1) by (intro mult_right_mono) simp_all
  with small have "\<bar>y - p\<bar> * B < 1" by linarith
  moreover have "\<bar>y - p\<bar> * B = \<bar>y * B - p * B\<bar>"
  proof -
    have "\<bar>y - p\<bar> * B = \<bar>(y - p) * B\<bar>" using B(1) by (simp add: abs_mult)
    then show ?thesis by (simp only: left_diff_distrib)
  qed
  ultimately have Y: "of_nat k - 1 < y * B" "y * B < of_nat k + 1"
    unfolding pB by linarith+
  have k: "k = m * b + r" "r < b" using assms(1,2) by (simp_all add: m_def r_def)
  have kr: "(of_nat k :: rat) = of_nat m * B + of_nat r"
    unfolding B_def k(1) by simp
  have rB: "(of_nat r :: rat) + 1 \<le> B"
  proof -
    have "r + 1 \<le> b" using k(2) by simp
    then have "(of_nat (r + 1) :: rat) \<le> of_nat b" by (simp only: of_nat_le_iff)
    then show ?thesis by (simp add: B_def)
  qed
  have dy: "int d = \<lfloor>y\<rfloor>" using y(1) by (simp add: d_def y_def canvasDim_def)
  have "y * B < (of_nat m + 1) * B" using Y(2) kr rB by (simp add: algebra_simps)
  then have "y < of_nat m + 1" using B(1) by (simp add: mult_less_cancel_right)
  then have "y < of_int (int m + 1)" by simp
  then have up: "\<lfloor>y\<rfloor> < int m + 1" by (simp only: floor_less_iff)
  with dy show "d \<le> (a * n) div b" unfolding m_def k_def by linarith
  have "(of_nat m - 1) * B \<le> of_nat k - 1" using kr B(1) by (simp add: algebra_simps)
  then have "(of_nat m - 1) * B < y * B" using Y(1) by linarith
  then have "of_nat m - 1 < y" using B(1) by (simp add: mult_less_cancel_right)
  then have "of_int (int m - 1) \<le> y" by simp
  then have "int m - 1 \<le> \<lfloor>y\<rfloor>" by (simp only: le_floor_iff)
  with dy show "(a * n) div b \<le> d + 1" unfolding m_def k_def by linarith
  assume "(a * n) mod b \<noteq> 0"
  then have "1 \<le> r" by (simp add: r_def k_def)
  then have "(1::rat) \<le> of_nat r" by simp
  then have "of_nat m * B \<le> of_nat k - 1" using kr by simp
  then have "of_nat m * B < y * B" using Y(1) by linarith
  then have "of_nat m < y" using B(1) by (simp add: mult_less_cancel_right)
  then have "of_int (int m) \<le> y" by simp
  then have "int m \<le> \<lfloor>y\<rfloor>" by (simp only: le_floor_iff)
  with up dy show "d = (a * n) div b" unfolding m_def k_def by linarith
qed

lemma optimizeImage_loaded:
  "loadImage b src = Loaded w h \<Longrightarrow> getContext2d b \<Longrightarrow>
   optimizeImage b src B =
     Inr (toDataURL b src (fst (canvasSize w h B)) (snd (canvasSize w h B)) True 7)"
  by (simp add: optimizeImage_def canvasSize_def split: prod.splits)

lemma example_browsers:
  "loadImage exampleBrowser src = Loaded 2000 1000" "getContext2d exampleBrowser"
  "toDataURL exampleBrowser src w h bd q =
     (if w = 0 \<or> h = 0 then ''data:,'' else ''data:image/jpeg;base64,'' @ src)"
  "loadImage emptyImageBrowser src = Loaded 0 0" "getContext2d emptyImageBrowser"
  "toDataURL emptyImageBrowser src w h bd q =
     (if w = 0 \<or> h = 0 then ''data:,'' else ''data:image/jpeg;base64,'' @ src)"
  "loadImage brokenImageBrowser src = LoadError"
  by (simp_all add: exampleBrowser_def emptyImageBrowser_def brokenImageBrowser_def)

lemma example_wide_browser:
  "loadImage wideImageBrowser src = Loaded 1122 561" "getContext2d wideImageBrowser"
  "toDataURL wideImageBrowser src w h bd q =
     (if w = 0 \<or> h = 0 then ''data:,'' else ''data:image/jpeg;base64,'' @ src)"
  by (simp_all add: exampleBrowser_def wideImageBrowser_def)

lemma example_rounding:
  "\<lfloor>roundDouble (1000 * roundDouble (2 / 5))\<rfloor> = 400"
  "\<lfloor>roundDouble (1000 * roundDouble (64 / 125))\<rfloor> = 512"
  "roundDouble (561 * roundDouble (512 / 561)) = 9007199254740991 / 17592186044416"
  "roundDouble (3 * roundDouble (9007199254740991 / 13510798882111488)) = 2"
  "\<lfloor>9007199254740991 / 17592186044416 :: rat\<rfloor> = 511"
  "\<lfloor>9007199254740991 / 4503599627370496 :: rat\<rfloor> = 1"
  by (code_simp, code_simp, code_simp, code_simp, code_simp, code_simp)

lemma example_canvasSize:
  "canvasSize 2000 1000 800 = (800, 400)" "canvasSize 2000 1000 1024 = (1024, 512)"
  "canvasSize 2000 1000 2048 = (2000, 1000)" "canvasSize 0 0 800 = (0, 0)"
  "canvasSize 0 0 1024 = (0, 0)" "canvasSize 1122 561 1024 = (1024, 511)"
  "canvasSize 3 3 (2 - 1 / 2 ^ 52) = (2, 1)"
  by (simp_all add: canvasSize_def optimizeSize_def canvasDim_def example_rounding)

subsection \<open>Size parsing\<close>

lemma includesStr_sublist: "includesStr s t \<longleftrightarrow> sublist t s"
  by (induction s) (auto simp: startsWith_prefix sublist_Cons_right)

lemma startsWithAnyCase_iff:
  "startsWithAnyCase s p \<longleftrightarrow> (\<exists>u. prefix u s \<and> list_all2 sameLetter u p)"
proof (induction s p rule: startsWithAnyCase.induct)
  case (1 s) then show ?case by auto
next
  case (2 p ps) then show ?case by auto
next
  case (3 c cs p ps)
  show ?case
  proof
    assume "startsWithAnyCase (c # cs) (p # ps)"
    with 3 obtain u where "prefix u cs" "list_all2 sameLetter u ps" "sameLetter c p" by auto
    then have "prefix (c # u) (c # cs) \<and> list_all2 sameLetter (c # u) (p # ps)" by simp
    then show "\<exists>u. prefix u (c # cs) \<and> list_all2 sameLetter u (p # ps)" by blast
  next
    assume "\<exists>u. prefix u (c # cs) \<and> list_all2 sameLetter u (p # ps)"
    then obtain u where u: "prefix u (c # cs)" "list_all2 sameLetter u (p # ps)" by blast
    then obtain x xs where "u = x # xs" by (cases u) auto
    with u 3 show "startsWithAnyCase (c # cs) (p # ps)" by auto
  qed
qed

lemma containsAnyCase_iff:
  "containsAnyCase s t \<longleftrightarrow> (\<exists>u. sublist u s \<and> list_all2 sameLetter u t)"
proof (induction s)
  case Nil
  then show ?case by auto
next
  case (Cons c cs)
  show ?case
    by (auto simp: Cons startsWithAnyCase_iff sublist_Cons_right simp del: startsWithAnyCase.simps)
qed

lemma sublist_map_iff: "sublist c (map f s) \<longleftrightarrow> (\<exists>u. sublist u s \<and> map f u = c)"
  using sublist_map_rightE[of c f s] map_mono_sublist[of _ s f] by blast

lemma sublist_dropWhile:
  assumes "u \<noteq> []" "\<forall>x\<in>set u. \<not> P x"
  shows "sublist u (dropWhile P s) \<longleftrightarrow> sublist u s"
proof (induction s)
  case Nil
  show ?case by simp
next
  case (Cons x xs)
  show ?case
  proof (cases "P x")
    case True
    have "\<not> prefix u (x # xs)"
    proof
      assume "prefix u (x # xs)"
      with assms(1) have "hd u = x" by (cases u) auto
      with assms True show False by (cases u) auto
    qed
    with True Cons show ?thesis by (simp add: sublist_Cons_right)
  next
    case False
    then show ?thesis by simp
  qed
qed

lemma sublist_padding_left:
  assumes "u \<noteq> []" "\<forall>x\<in>set u. \<not> P x" "\<forall>x\<in>set a. P x"
  shows "sublist u (a @ m) \<longleftrightarrow> sublist u m"
proof -
  have "sublist u (a @ m) \<longleftrightarrow> sublist u (dropWhile P (a @ m))"
    using sublist_dropWhile[OF assms(1,2)] by simp
  also have "dropWhile P (a @ m) = dropWhile P m"
    using assms(3) by simp
  also have "sublist u (dropWhile P m) \<longleftrightarrow> sublist u m"
    by (rule sublist_dropWhile[OF assms(1,2)])
  finally show ?thesis .
qed

lemma sublist_padding:
  assumes "u \<noteq> []" "\<forall>x\<in>set u. \<not> P x" "\<forall>x\<in>set a. P x" "\<forall>x\<in>set b. P x"
  shows "sublist u (a @ m @ b) \<longleftrightarrow> sublist u m"
proof -
  have "sublist u (a @ m @ b) \<longleftrightarrow> sublist u (m @ b)"
    by (rule sublist_padding_left[OF assms(1,2,3)])
  also have "\<dots> \<longleftrightarrow> sublist (rev u) (rev b @ rev m)"
    by (metis sublist_rev rev_append)
  also have "\<dots> \<longleftrightarrow> sublist (rev u) (rev m)"
    using assms by (intro sublist_padding_left[where P = P]) auto
  also have "\<dots> \<longleftrightarrow> sublist u m"
    by simp
  finally show ?thesis .
qed

lemma trim_padding:
  "\<exists>a b. s = a @ trim s @ b \<and> (\<forall>x\<in>set a. isWhiteSpace x) \<and> (\<forall>x\<in>set b. isWhiteSpace x)"
proof -
  let ?r = "dropWhile isWhiteSpace s"
  let ?a = "takeWhile isWhiteSpace s"
  let ?b = "rev (takeWhile isWhiteSpace (rev ?r))"
  have "rev (dropWhile isWhiteSpace (rev ?r)) @ rev (takeWhile isWhiteSpace (rev ?r)) =
        rev (takeWhile isWhiteSpace (rev ?r) @ dropWhile isWhiteSpace (rev ?r))"
    by (simp only: rev_append)
  also have "\<dots> = ?r"
    by (simp only: takeWhile_dropWhile_id rev_rev_ident)
  finally have r: "?r = trim s @ ?b"
    by (simp add: trim_def)
  have "s = ?a @ ?r" by simp
  with r have "s = ?a @ trim s @ ?b" by simp
  moreover have "\<forall>x\<in>set ?a. isWhiteSpace x" by (auto dest: set_takeWhileD)
  moreover have "\<forall>x\<in>set ?b. isWhiteSpace x" by (auto dest: set_takeWhileD)
  ultimately show ?thesis by blast
qed

lemma of_char_code:
  "(of_char x :: nat) = of_char y \<longleftrightarrow> x = y"
  by simp

lemma toUpperChar_codes:
  "toUpperChar x = [88] \<longleftrightarrow> x = CHR ''x'' \<or> x = CHR ''X''"
  "toUpperChar x = [83] \<longleftrightarrow> x = CHR ''s'' \<or> x = CHR ''S''"
  "toUpperChar x = [77] \<longleftrightarrow> x = CHR ''m'' \<or> x = CHR ''M''"
  "toUpperChar x = [76] \<longleftrightarrow> x = CHR ''l'' \<or> x = CHR ''L''"
proof -
  have lower: "(of_char x :: nat) = 0x78 \<longleftrightarrow> x = CHR ''x''" "(of_char x :: nat) = 0x73 \<longleftrightarrow> x = CHR ''s''"
    "(of_char x :: nat) = 0x6D \<longleftrightarrow> x = CHR ''m''" "(of_char x :: nat) = 0x6C \<longleftrightarrow> x = CHR ''l''"
    using of_char_code[of x "CHR ''x''"] of_char_code[of x "CHR ''s''"]
      of_char_code[of x "CHR ''m''"] of_char_code[of x "CHR ''l''"] by simp_all
  have upper: "(of_char x :: nat) = 0x58 \<longleftrightarrow> x = CHR ''X''" "(of_char x :: nat) = 0x53 \<longleftrightarrow> x = CHR ''S''"
    "(of_char x :: nat) = 0x4D \<longleftrightarrow> x = CHR ''M''" "(of_char x :: nat) = 0x4C \<longleftrightarrow> x = CHR ''L''"
    using of_char_code[of x "CHR ''X''"] of_char_code[of x "CHR ''S''"]
      of_char_code[of x "CHR ''M''"] of_char_code[of x "CHR ''L''"] by simp_all
  show "toUpperChar x = [88] \<longleftrightarrow> x = CHR ''x'' \<or> x = CHR ''X''"
    unfolding lower[symmetric] upper[symmetric] by (auto simp: toUpperChar_def Let_def)
  show "toUpperChar x = [83] \<longleftrightarrow> x = CHR ''s'' \<or> x = CHR ''S''"
    unfolding lower[symmetric] upper[symmetric] by (auto simp: toUpperChar_def Let_def)
  show "toUpperChar x = [77] \<longleftrightarrow> x = CHR ''m'' \<or> x = CHR ''M''"
    unfolding lower[symmetric] upper[symmetric] by (auto simp: toUpperChar_def Let_def)
  show "toUpperChar x = [76] \<longleftrightarrow> x = CHR ''l'' \<or> x = CHR ''L''"
    unfolding lower[symmetric] upper[symmetric] by (auto simp: toUpperChar_def Let_def)
qed

lemma sameLetter_codes:
  "sameLetter x (CHR ''X'') \<longleftrightarrow> x = CHR ''x'' \<or> x = CHR ''X''"
  "sameLetter x (CHR ''S'') \<longleftrightarrow> x = CHR ''s'' \<or> x = CHR ''S''"
  "sameLetter x (CHR ''M'') \<longleftrightarrow> x = CHR ''m'' \<or> x = CHR ''M''"
  "sameLetter x (CHR ''L'') \<longleftrightarrow> x = CHR ''l'' \<or> x = CHR ''L''"
  by (auto simp: sameLetter_def)

lemma upper_is_sameLetter:
  "y \<in> codeLetters \<Longrightarrow> toUpperChar x = [of_char y] \<longleftrightarrow> sameLetter x y"
  by (auto simp: codeLetters_def toUpperChar_codes sameLetter_codes)

lemma toUpperChar_single:
  "x \<noteq> CHR 0xDF \<Longrightarrow> \<exists>n. toUpperChar x = [n]"
proof -
  assume "x \<noteq> CHR 0xDF"
  then have "(of_char x :: nat) \<noteq> 0xDF"
    using of_char_code[of x "CHR 0xDF"] by simp
  then show ?thesis by (simp add: toUpperChar_def Let_def)
qed

lemma toUpperCase_Cons: "toUpperCase (x # xs) = toUpperChar x @ toUpperCase xs"
  by (simp add: toUpperCase_def)

lemma toUpperCase_append: "toUpperCase (a @ b) = toUpperCase a @ toUpperCase b"
  by (simp add: toUpperCase_def)

lemma upper_sameLetter:
  "CHR 0xDF \<notin> set u \<Longrightarrow> set c \<subseteq> codeLetters \<Longrightarrow>
   toUpperCase u = codeUnits c \<longleftrightarrow> list_all2 sameLetter u c"
proof (induction u arbitrary: c)
  case Nil
  then show ?case by (auto simp: toUpperCase_def codeUnits_def)
next
  case (Cons x xs)
  then obtain n where n: "toUpperChar x = [n]" using toUpperChar_single[of x] by auto
  show ?case
  proof (cases c)
    case Nil
    then show ?thesis by (simp add: toUpperCase_Cons n codeUnits_def)
  next
    case (Cons y ys)
    with Cons.prems have y: "y \<in> codeLetters" "set ys \<subseteq> codeLetters" by auto
    have "toUpperCase (x # xs) = codeUnits c \<longleftrightarrow> n = of_char y \<and> toUpperCase xs = codeUnits ys"
      by (simp add: toUpperCase_Cons n Cons codeUnits_def)
    also have "\<dots> \<longleftrightarrow> sameLetter x y \<and> list_all2 sameLetter xs ys"
      using upper_is_sameLetter[OF y(1), of x] Cons.IH[OF _ y(2)] Cons.prems(1) n by auto
    finally show ?thesis by (simp add: Cons)
  qed
qed

lemma toUpperCase_map:
  "CHR 0xDF \<notin> set t \<Longrightarrow> toUpperCase t = map (\<lambda>x. hd (toUpperChar x)) t"
proof (induction t)
  case Nil
  then show ?case by (simp add: toUpperCase_def)
next
  case (Cons x xs)
  then obtain n where "toUpperChar x = [n]" using toUpperChar_single[of x] by auto
  with Cons show ?case by (simp add: toUpperCase_Cons)
qed

lemma validSizes_letters: "s \<in> set validSizes \<Longrightarrow> s \<noteq> [] \<and> set s \<subseteq> codeLetters"
  by (auto simp: validSizes_def codeLetters_def)

lemma upper_includes_code:
  assumes "s \<in> set validSizes" "CHR 0xDF \<notin> set t"
  shows "includesStr (toUpperCase t) (codeUnits s) \<longleftrightarrow> containsAnyCase t s"
proof -
  let ?f = "\<lambda>x. hd (toUpperChar x)"
  from validSizes_letters[OF assms(1)] have s: "set s \<subseteq> codeLetters" by simp
  have "includesStr (toUpperCase t) (codeUnits s) \<longleftrightarrow> (\<exists>u. sublist u t \<and> map ?f u = codeUnits s)"
    by (simp add: includesStr_sublist toUpperCase_map[OF assms(2)] sublist_map_iff)
  also have "\<dots> \<longleftrightarrow> (\<exists>u. sublist u t \<and> list_all2 sameLetter u s)"
  proof -
    have "map ?f u = codeUnits s \<longleftrightarrow> list_all2 sameLetter u s" if "sublist u t" for u
    proof -
      from that assms(2) have nu: "CHR 0xDF \<notin> set u"
        using set_mono_sublist by fastforce
      then show ?thesis
        using upper_sameLetter[OF nu s] toUpperCase_map[OF nu] by simp
    qed
    then show ?thesis by blast
  qed
  also have "\<dots> \<longleftrightarrow> containsAnyCase t s"
    by (simp add: containsAnyCase_iff)
  finally show ?thesis .
qed

lemma white_upper:
  "isWhiteSpace c \<Longrightarrow> toUpperChar c = [of_char c] \<and> of_char c \<in> {9, 10, 11, 12, 13, 32, 160 :: nat}"
  by (auto simp: isWhiteSpace_def toUpperChar_def)

lemma toUpperCase_white:
  "\<forall>x\<in>set a. isWhiteSpace x \<Longrightarrow> \<forall>n\<in>set (toUpperCase a). n \<in> {9, 10, 11, 12, 13, 32, 160 :: nat}"
proof (induction a)
  case Nil
  then show ?case by (simp add: toUpperCase_def)
next
  case (Cons x xs)
  then show ?case using white_upper[of x] by (simp add: toUpperCase_Cons)
qed

lemma codes_not_white:
  "s \<in> set validSizes \<Longrightarrow>
   codeUnits s \<noteq> [] \<and> (\<forall>n\<in>set (codeUnits s). n \<notin> {9, 10, 11, 12, 13, 32, 160 :: nat})"
  by (auto simp: validSizes_def codeUnits_def)

lemma upper_trim:
  assumes "s \<in> set validSizes"
  shows "includesStr (toUpperCase (trim t)) (codeUnits s) \<longleftrightarrow>
         includesStr (toUpperCase t) (codeUnits s)"
proof -
  from trim_padding[of t] obtain a b where
    ab: "t = a @ trim t @ b" "\<forall>x\<in>set a. isWhiteSpace x" "\<forall>x\<in>set b. isWhiteSpace x"
    by blast
  have "toUpperCase t = toUpperCase a @ toUpperCase (trim t) @ toUpperCase b"
    by (subst ab(1)) (simp only: toUpperCase_append)
  moreover have "sublist (codeUnits s) (toUpperCase a @ toUpperCase (trim t) @ toUpperCase b) \<longleftrightarrow>
        sublist (codeUnits s) (toUpperCase (trim t))"
    using codes_not_white[OF assms] toUpperCase_white[OF ab(2)] toUpperCase_white[OF ab(3)]
    by (intro sublist_padding[where P = "\<lambda>n. n \<in> {9, 10, 11, 12, 13, 32, 160 :: nat}"]) auto
  ultimately show ?thesis by (simp add: includesStr_sublist)
qed

lemma find_default_M:
  "find (\<lambda>s. includesStr (codeUnits ''M'') (codeUnits s)) validSizes = Some ''M''"
  by (simp add: validSizes_def codeUnits_def)

lemma find_codes_nonempty:
  "(case find P validSizes of Some s \<Rightarrow> (if s = [] then ''M'' else s) | None \<Rightarrow> ''M'') =
   (case find P validSizes of Some s \<Rightarrow> s | None \<Rightarrow> ''M'')"
  by (auto split: option.splits simp: find_Some_iff validSizes_def nth_Cons')

lemma parseSize_upper:
  "parseSize (Some t) =
     (case find (\<lambda>s. includesStr (toUpperCase t) (codeUnits s)) validSizes of
        Some s \<Rightarrow> s | None \<Rightarrow> ''M'')"
proof (cases "toUpperCase (trim t) = []")
  case True
  have "\<not> includesStr (toUpperCase t) (codeUnits s)" if "s \<in> set validSizes" for s
    using upper_trim[OF that, of t] True codes_not_white[OF that] by simp
  then have "find (\<lambda>s. includesStr (toUpperCase t) (codeUnits s)) validSizes = None"
    by (simp add: find_None_iff)
  then show ?thesis
    using True by (simp add: parseSize_def find_default_M)
next
  case False
  have "find (\<lambda>s. includesStr (toUpperCase (trim t)) (codeUnits s)) validSizes =
        find (\<lambda>s. includesStr (toUpperCase t) (codeUnits s)) validSizes"
    by (rule find_cong) (simp_all add: upper_trim)
  then show ?thesis
    using False by (simp add: parseSize_def find_codes_nonempty)
qed

lemma parseSize_anyCase:
  assumes "CHR 0xDF \<notin> set t"
  shows "parseSize (Some t) =
           (case find (containsAnyCase t) validSizes of Some s \<Rightarrow> s | None \<Rightarrow> ''M'')"
proof -
  have "find (\<lambda>s. includesStr (toUpperCase t) (codeUnits s)) validSizes =
        find (containsAnyCase t) validSizes"
    by (rule find_cong) (simp_all add: upper_includes_code[OF _ assms])
  then show ?thesis by (simp add: parseSize_upper)
qed


lemma first_success_001:
  "fn 0 = Inr v \<Longrightarrow> fetchWithRetry_001 fn retries delay startTrace = (Inr v, \<lparr>calls = 1, sleeps = []\<rparr>)"
  by (simp add: fetchWithRetry_001.simps[of fn retries delay "\<lparr>calls = 0, sleeps = []\<rparr>"] startTrace_def)

lemma first_success_002:
  "fn 0 = Inr v \<Longrightarrow> fetchWithRetry_002 fn retries delay startTrace = (Inr v, \<lparr>calls = 1, sleeps = []\<rparr>)"
  by (simp add: fetchWithRetry_002.simps[of fn retries delay "\<lparr>calls = 0, sleeps = []\<rparr>"] startTrace_def)

lemma returned_by_fn_001:
  "fst (fetchWithRetry_001 fn retries delay tr) = Inr v \<Longrightarrow> \<exists>i. fn i = Inr v"
  by (cases "fn (calls tr + stopIndex retried_001 fn (calls tr) (nat retries))")
     (auto simp: fetchWithRetry_001_closed Let_def)

lemma returned_by_fn_002:
  "fst (fetchWithRetry_002 fn retries delay tr) = Inr v \<Longrightarrow> \<exists>i. fn i = Inr v"
  by (auto simp: fetchWithRetry_002_closed Let_def)

lemma estimateAttempt_Inr:
  "estimateAttempt b user answer = Inr s \<Longrightarrow> \<exists>r. answer = Inr r \<and> s = parseSize (responseText r)"
  by (auto simp: estimateAttempt_def split: sum.splits)

text \<open>
  Claim C1, as amended. For every response text of the size-estimation call (characters up
  to U+00FF), \<open>parseSize\<close> returns the first code of the list XS, S, M, L, XL, XXL (scanned
  in that order) that is a substring of the text upper-cased by \<open>toUpperCase\<close>; when no
  code is, or the text is missing, the result is M. For a text without the sharp s this
  is the first code of the list that the text contains regardless of letter case, and M
  when it contains none; the sharp s is upper-cased to SS, which contains the code S. The
  value that \<open>estimateSizeFromImage\<close> returns is \<open>parseSize\<close> of the text of a backend
  response, in both versions of the service module.
\<close>

theorem parseSize_first_code:
  "parseSize None = ''M''
   \<and> parseSize (Some t) =
       (case find (\<lambda>s. includesStr (toUpperCase t) (codeUnits s)) validSizes of
          Some s \<Rightarrow> s | None \<Rightarrow> ''M'')
   \<and> (CHR 0xDF \<notin> set t \<longrightarrow>
        parseSize (Some t) =
          (case find (containsAnyCase t) validSizes of Some s \<Rightarrow> s | None \<Rightarrow> ''M''))
   \<and> (optimizeImage b user 800 = Inr img \<and> backend 0 = Inr r \<longrightarrow>
        estimateSizeFromImage_001 b backend user =
          (Inr (parseSize (responseText r)), \<lparr>calls = 1, sleeps = []\<rparr>)
        \<and> estimateSizeFromImage_002 b backend user =
          (Inr (parseSize (responseText r)), \<lparr>calls = 1, sleeps = []\<rparr>))
   \<and> (fst (estimateSizeFromImage_001 b backend user) = Inr code
        \<or> fst (estimateSizeFromImage_002 b backend user) = Inr code \<longrightarrow>
        (\<exists>i r. backend i = Inr r \<and> code = parseSize (responseText r)))"
proof (intro conjI impI)
  show "parseSize None = ''M''"
    by (simp add: parseSize_def find_default_M)
  show "parseSize (Some t) =
       (case find (\<lambda>s. includesStr (toUpperCase t) (codeUnits s)) validSizes of
          Some s \<Rightarrow> s | None \<Rightarrow> ''M'')"
    by (rule parseSize_upper)
next
  assume "CHR 0xDF \<notin> set t"
  then show "parseSize (Some t) =
       (case find (containsAnyCase t) validSizes of Some s \<Rightarrow> s | None \<Rightarrow> ''M'')"
    by (rule parseSize_anyCase)
next
  assume a: "optimizeImage b user 800 = Inr img \<and> backend 0 = Inr r"
  then have 0: "estimateAttempt b user (backend 0) = Inr (parseSize (responseText r))"
    by (simp add: estimateAttempt_def)
  show "estimateSizeFromImage_001 b backend user =
          (Inr (parseSize (responseText r)), \<lparr>calls = 1, sleeps = []\<rparr>)"
    unfolding estimateSizeFromImage_001_def by (rule first_success_001) (rule 0)
  show "estimateSizeFromImage_002 b backend user =
          (Inr (parseSize (responseText r)), \<lparr>calls = 1, sleeps = []\<rparr>)"
    unfolding estimateSizeFromImage_002_def by (rule first_success_002) (rule 0)
next
  assume "fst (estimateSizeFromImage_001 b backend user) = Inr code
        \<or> fst (estimateSizeFromImage_002 b backend user) = Inr code"
  then have "\<exists>i. estimateAttempt b user (backend i) = Inr code"
    unfolding estimateSizeFromImage_001_def estimateSizeFromImage_002_def
    using returned_by_fn_001 returned_by_fn_002 by fast
  then show "\<exists>i r. backend i = Inr r \<and> code = parseSize (responseText r)"
    using estimateAttempt_Inr by blast
qed

lemma example_optimize:
  "optimizeImage exampleBrowser src 800 = Inr (''data:image/jpeg;base64,'' @ src)"
  "optimizeImage exampleBrowser src 1024 = Inr (''data:image/jpeg;base64,'' @ src)"
  by (simp_all add: optimizeImage_loaded[of exampleBrowser src 2000 1000] example_browsers
      example_canvasSize)

lemma example_parse: "parseSize (Some '' xl '') = ''L''"
  by (simp add: parseSize_def trim_def isWhiteSpace_def toUpperCase_def toUpperChar_def
      validSizes_def codeUnits_def)

lemma sizeUnknown_parse: "parseSize (Some sizeUnknownText) = ''S''"
  by (simp add: parseSize_def trim_def isWhiteSpace_def toUpperCase_def toUpperChar_def
      validSizes_def codeUnits_def sizeUnknownText_def)

lemma sizeUnknown_upper:
  "toUpperCase sizeUnknownText = codeUnits (''GR'' @ [CHR 0xD6] @ ''SSE UNBEKANNT'')"
  by (simp add: toUpperCase_def toUpperChar_def codeUnits_def sizeUnknownText_def)

lemma sizeUnknown_contains:
  "find (containsAnyCase sizeUnknownText) validSizes = None"
  by (simp add: validSizes_def sizeUnknownText_def sameLetter_def)

theorem parseSize_first_code_witness:
  "CHR 0xDF \<notin> set '' xl ''
   \<and> parseSize (Some '' xl '') = ''L''
   \<and> find (containsAnyCase '' xl '') validSizes = Some ''L''
   \<and> estimateSizeFromImage_001 exampleBrowser (answersText '' xl '') ''photo'' =
        (Inr ''L'', \<lparr>calls = 1, sleeps = []\<rparr>)
   \<and> estimateSizeFromImage_002 exampleBrowser (answersText '' xl '') ''photo'' =
        (Inr ''L'', \<lparr>calls = 1, sleeps = []\<rparr>)"
  using parseSize_first_code [of "'' xl ''" exampleBrowser "''photo''"
      "''data:image/jpeg;base64,photo''" "answersText '' xl ''"
      "\<lparr>responseText = Some '' xl '', candidates = None\<rparr>" "''L''"]
  by (simp add: example_optimize example_parse answersText_def validSizes_def sameLetter_def)

text \<open>
  Claim C1 as stated fails on a text with a sharp s: "size unknown" in German is
  upper-cased to a text that contains S, so the result is S, although the text contains
  none of the six codes in either letter case, for which the claim gives M.
\<close>

theorem sharp_s_counterexample:
  "parseSize (Some sizeUnknownText) = ''S''
   \<and> toUpperCase sizeUnknownText = codeUnits (''GR'' @ [CHR 0xD6] @ ''SSE UNBEKANNT'')
   \<and> find (containsAnyCase sizeUnknownText) validSizes = None"
  using sizeUnknown_parse sizeUnknown_upper sizeUnknown_contains by simp

subsection \<open>Inspecting the response of the composite call\<close>

lemma inspect_safety:
  "reportsSafety r \<Longrightarrow> inspectResponse s f r = Inl (newError s)"
  by (auto simp: reportsSafety_def inspectResponse_def firstOf_def split: option.splits list.splits)

lemma inspect_parts:
  "\<not> reportsSafety r \<Longrightarrow>
   inspectResponse s f r =
     (case find (\<lambda>p. inlineData p \<noteq> None) (partsOf r) of
        None \<Rightarrow> Inl (newError f)
      | Some p \<Rightarrow>
          (case Option.bind (inlineData p) data of
             Some d \<Rightarrow> if d \<noteq> [] then Inr (''data:image/jpeg;base64,'' @ d) else Inl (newError f)
           | None \<Rightarrow> Inl (newError f)))"
  by (auto simp: reportsSafety_def inspectResponse_def firstOf_def partsOf_def Let_def
      split: option.splits list.splits)

lemma find_first:
  "(\<forall>q\<in>set pre. \<not> P q) \<Longrightarrow> P p \<Longrightarrow> find P (pre @ p # post) = Some p"
  by (induction pre) auto

lemma find_none: "(\<forall>q\<in>set ps. \<not> P q) \<Longrightarrow> find P ps = None"
  by (simp add: find_None_iff)

lemma inspect_first_inline:
  assumes "\<not> reportsSafety r" "partsOf r = pre @ p # post"
    "\<forall>q\<in>set pre. inlineData q = None" "inlineData p = Some bl"
  shows "inspectResponse s f r =
     (case data bl of
        Some d \<Rightarrow> if d \<noteq> [] then Inr (''data:image/jpeg;base64,'' @ d) else Inl (newError f)
      | None \<Rightarrow> Inl (newError f))"
proof -
  have "find (\<lambda>p. inlineData p \<noteq> None) (partsOf r) = Some p"
    unfolding assms(2) using assms(3,4) by (intro find_first) auto
  then show ?thesis using assms(1,4) by (simp add: inspect_parts)
qed

lemma inspect_no_inline:
  assumes "\<not> reportsSafety r" "\<forall>q\<in>set (partsOf r). inlineData q = None"
  shows "inspectResponse s f r = Inl (newError f)"
proof -
  have "find (\<lambda>p. inlineData p \<noteq> None) (partsOf r) = None"
    using assms(2) by (intro find_none) auto
  then show ?thesis using assms(1) by (simp add: inspect_parts)
qed

lemma texts_not_retried:
  "\<not> msgHas (newError safetyText_001) ''429''"
  "\<not> msgHas (newError safetyText_001) ''Requested entity was not found''"
  "\<not> msgHas (newError failureText_001) ''429''"
  "\<not> msgHas (newError failureText_001) ''Requested entity was not found''"
  "\<not> msgHas (newError safetyText_002) ''429''"
  "\<not> msgHas (newError safetyText_002) ''quota''"
  "\<not> msgHas (newError failureText_002) ''429''"
  "\<not> msgHas (newError failureText_002) ''quota''"
  by (simp_all add: msgHas_def errorMsg_def newError_def safetyText_001_def safetyText_002_def
      failureText_001_def failureText_002_def)

lemma inspect_cases:
  "(\<exists>uri. inspectResponse s f r = Inr uri) \<or> inspectResponse s f r = Inl (newError s)
   \<or> inspectResponse s f r = Inl (newError f)"
  by (cases "reportsSafety r") (auto simp: inspect_safety inspect_parts split: option.splits)

lemma ends_at_first_001:
  assumes "\<And>e. fn 0 = Inl e \<Longrightarrow> \<not> msgHas e ''429'' \<and> status e \<noteq> Some 429
             \<and> \<not> msgHas e ''Requested entity was not found''"
  shows "fetchWithRetry_001 fn retries delay startTrace = (fn 0, \<lparr>calls = 1, sleeps = []\<rparr>)"
proof -
  have "stopIndex retried_001 fn 0 (nat retries) = 0"
    using assms by (intro stopIndex_unique) (auto simp: retried_001_msgHas)
  moreover have "map_sum raised_001 (\<lambda>v. v) (fn 0) = fn 0"
    using assms by (cases "fn 0") (auto simp: raised_001_def entityNotFound_def msgHas_def)
  ultimately show ?thesis
    by (simp add: fetchWithRetry_001_start backoff_def)
qed

lemma ends_at_first_002:
  assumes "\<And>e. fn 0 = Inl e \<Longrightarrow> \<not> msgHas e ''429'' \<and> status e \<noteq> Some 429 \<and> \<not> msgHas e ''quota''"
  shows "fetchWithRetry_002 fn retries delay startTrace = (fn 0, \<lparr>calls = 1, sleeps = []\<rparr>)"
proof -
  have "stopIndex isRetryable_002 fn 0 (nat retries) = 0"
    using assms by (intro stopIndex_unique) (auto simp: isRetryable_002_msgHas)
  then show ?thesis
    by (simp add: fetchWithRetry_002_start backoff_def)
qed

lemma status_newError: "status (newError m) = None"
  by (simp add: newError_def)

lemma tryOn_first_answer_001:
  assumes "optimizeImage b user 1024 = Inr u'" "optimizeImage b garment 1024 = Inr p'"
    "backend 0 = Inr r"
  shows "performVirtualTryOn_001 b backend user garment =
           (inspectResponse safetyText_001 failureText_001 r, \<lparr>calls = 1, sleeps = []\<rparr>)"
proof -
  let ?fn = "\<lambda>i. tryOnAttempt safetyText_001 failureText_001 b user garment (backend i)"
  have 0: "?fn 0 = inspectResponse safetyText_001 failureText_001 r"
    using assms by (simp add: tryOnAttempt_def)
  have "fetchWithRetry_001 ?fn 2 2000 startTrace = (?fn 0, \<lparr>calls = 1, sleeps = []\<rparr>)"
  proof (rule ends_at_first_001)
    fix e assume "?fn 0 = Inl e"
    with inspect_cases[of safetyText_001 failureText_001 r] 0
    have "e = newError safetyText_001 \<or> e = newError failureText_001"
      by auto
    then show "\<not> msgHas e ''429'' \<and> status e \<noteq> Some 429
             \<and> \<not> msgHas e ''Requested entity was not found''"
      using texts_not_retried status_newError by auto
  qed
  then show ?thesis by (simp add: performVirtualTryOn_001_def 0)
qed

lemma tryOn_first_answer_002:
  assumes "optimizeImage b user 1024 = Inr u'" "optimizeImage b garment 1024 = Inr p'"
    "backend 0 = Inr r"
  shows "performVirtualTryOn_002 b backend user garment =
           (inspectResponse safetyText_002 failureText_002 r, \<lparr>calls = 1, sleeps = []\<rparr>)"
proof -
  let ?fn = "\<lambda>i. tryOnAttempt safetyText_002 failureText_002 b user garment (backend i)"
  have 0: "?fn 0 = inspectResponse safetyText_002 failureText_002 r"
    using assms by (simp add: tryOnAttempt_def)
  have "fetchWithRetry_002 ?fn 2 2000 startTrace = (?fn 0, \<lparr>calls = 1, sleeps = []\<rparr>)"
  proof (rule ends_at_first_002)
    fix e assume "?fn 0 = Inl e"
    with inspect_cases[of safetyText_002 failureText_002 r] 0
    have "e = newError safetyText_002 \<or> e = newError failureText_002"
      by auto
    then show "\<not> msgHas e ''429'' \<and> status e \<noteq> Some 429 \<and> \<not> msgHas e ''quota''"
      using texts_not_retried status_newError by auto
  qed
  then show ?thesis by (simp add: performVirtualTryOn_002_def 0)
qed

text \<open>
  Claim C5, as amended. When the first candidate of the response reports the finish reason
  \<open>SAFETY\<close>, the wrapped operation fails with the safety error, whose message asks for
  neutral clothing. Otherwise the first part of the first candidate that has an
  \<open>inlineData\<close> field decides: when its data is present and not empty, the data is
  returned behind the prefix \<open>data:image/jpeg;base64,\<close>; when its data is missing or
  empty, or when no part has an \<open>inlineData\<close> field, the operation fails with the
  generation-failed error; parts after that first one are not looked at. None of the two
  errors is retried: when the images normalise and the backend answers the first
  invocation with a response, \<open>performVirtualTryOn\<close> ends after that one invocation,
  without sleeping, with the outcome of the inspection.
\<close>

theorem tryOn_response_handling:
  "(reportsSafety r \<longrightarrow> inspectResponse s f r = Inl (newError s))
   \<and> (\<not> reportsSafety r \<and> partsOf r = pre @ p # post
        \<and> (\<forall>q\<in>set pre. inlineData q = None) \<and> inlineData p = Some bl \<longrightarrow>
        inspectResponse s f r =
          (case data bl of
             Some d \<Rightarrow> if d \<noteq> [] then Inr (''data:image/jpeg;base64,'' @ d) else Inl (newError f)
           | None \<Rightarrow> Inl (newError f)))
   \<and> (\<not> reportsSafety r \<and> (\<forall>q\<in>set (partsOf r). inlineData q = None) \<longrightarrow>
        inspectResponse s f r = Inl (newError f))
   \<and> (optimizeImage b user 1024 = Inr u' \<and> optimizeImage b garment 1024 = Inr p'
        \<and> backend 0 = Inr r \<longrightarrow>
        performVirtualTryOn_001 b backend user garment =
          (inspectResponse safetyText_001 failureText_001 r, \<lparr>calls = 1, sleeps = []\<rparr>)
        \<and> performVirtualTryOn_002 b backend user garment =
          (inspectResponse safetyText_002 failureText_002 r, \<lparr>calls = 1, sleeps = []\<rparr>))"
  using inspect_safety[of r s f] inspect_first_inline[of r pre p post bl s f]
    inspect_no_inline[of r s f] tryOn_first_answer_001[of b user u' garment p' backend r]
    tryOn_first_answer_002[of b user u' garment p' backend r]
  by blast

lemma candidateOf_simps:
  "reportsSafety (candidateOf reason ps) \<longleftrightarrow> reason = ''SAFETY''"
  "partsOf (candidateOf reason ps) = ps"
  by (simp_all add: reportsSafety_def partsOf_def candidateOf_def)

lemma example_parts:
  "inlineData textPart = None"
  "inlineData emptyInlinePart = Some \<lparr>data = None, mimeType = Some ''image/png''\<rparr>"
  "inlineData pngPart = Some \<lparr>data = Some ''QUJD'', mimeType = Some ''image/png''\<rparr>"
  by (simp_all add: textPart_def emptyInlinePart_def pngPart_def)

theorem tryOn_response_handling_witness:
  "performVirtualTryOn_001 exampleBrowser (answersWith (candidateOf ''SAFETY'' [pngPart]))
       ''user'' ''garment'' = (Inl (newError safetyText_001), \<lparr>calls = 1, sleeps = []\<rparr>)
   \<and> performVirtualTryOn_002 exampleBrowser (answersWith (candidateOf ''SAFETY'' [pngPart]))
       ''user'' ''garment'' = (Inl (newError safetyText_002), \<lparr>calls = 1, sleeps = []\<rparr>)
   \<and> performVirtualTryOn_001 exampleBrowser (answersWith (candidateOf ''STOP'' [textPart, pngPart]))
       ''user'' ''garment'' = (Inr ''data:image/jpeg;base64,QUJD'', \<lparr>calls = 1, sleeps = []\<rparr>)
   \<and> performVirtualTryOn_002 exampleBrowser (answersWith (candidateOf ''STOP'' [textPart]))
       ''user'' ''garment'' = (Inl (newError failureText_002), \<lparr>calls = 1, sleeps = []\<rparr>)"
  using tryOn_response_handling [of "candidateOf ''SAFETY'' [pngPart]" safetyText_001
      failureText_001 "[]" pngPart "[]" "\<lparr>data = Some ''QUJD'', mimeType = Some ''image/png''\<rparr>"
      exampleBrowser "''user''" "''data:image/jpeg;base64,user''" "''garment''"
      "''data:image/jpeg;base64,garment''" "answersWith (candidateOf ''SAFETY'' [pngPart])"]
    tryOn_response_handling [of "candidateOf ''SAFETY'' [pngPart]" safetyText_002
      failureText_002 "[]" pngPart "[]" "\<lparr>data = Some ''QUJD'', mimeType = Some ''image/png''\<rparr>"
      exampleBrowser "''user''" "''data:image/jpeg;base64,user''" "''garment''"
      "''data:image/jpeg;base64,garment''" "answersWith (candidateOf ''SAFETY'' [pngPart])"]
    tryOn_response_handling [of "candidateOf ''STOP'' [textPart, pngPart]" safetyText_001
      failureText_001 "[textPart]" pngPart "[]"
      "\<lparr>data = Some ''QUJD'', mimeType = Some ''image/png''\<rparr>"
      exampleBrowser "''user''" "''data:image/jpeg;base64,user''" "''garment''"
      "''data:image/jpeg;base64,garment''" "answersWith (candidateOf ''STOP'' [textPart, pngPart])"]
    tryOn_response_handling [of "candidateOf ''STOP'' [textPart]" safetyText_002
      failureText_002 "[]" textPart "[]"
      "\<lparr>data = Some ''QUJD'', mimeType = Some ''image/png''\<rparr>"
      exampleBrowser "''user''" "''data:image/jpeg;base64,user''" "''garment''"
      "''data:image/jpeg;base64,garment''" "answersWith (candidateOf ''STOP'' [textPart])"]
  by (simp add: example_optimize candidateOf_simps example_parts answersWith_def)

text \<open>
  Claim C5 as stated fails on a response whose first inline part has no data and whose
  second inline part carries image data: the part carrying the data is not returned, the
  operation fails with the generation-failed error.
\<close>

theorem tryOn_later_image_part_counterexample:
  "\<not> reportsSafety (candidateOf ''STOP'' [emptyInlinePart, pngPart])
   \<and> partsOf (candidateOf ''STOP'' [emptyInlinePart, pngPart]) = [emptyInlinePart, pngPart]
   \<and> Option.bind (inlineData emptyInlinePart) data = None
   \<and> Option.bind (inlineData pngPart) data = Some ''QUJD''
   \<and> performVirtualTryOn_001 exampleBrowser
         (answersWith (candidateOf ''STOP'' [emptyInlinePart, pngPart])) ''user'' ''garment'' =
       (Inl (newError failureText_001), \<lparr>calls = 1, sleeps = []\<rparr>)
   \<and> performVirtualTryOn_002 exampleBrowser
         (answersWith (candidateOf ''STOP'' [emptyInlinePart, pngPart])) ''user'' ''garment'' =
       (Inl (newError failureText_002), \<lparr>calls = 1, sleeps = []\<rparr>)"
  using tryOn_first_answer_001 [of exampleBrowser "''user''" "''data:image/jpeg;base64,user''"
      "''garment''" "''data:image/jpeg;base64,garment''"
      "answersWith (candidateOf ''STOP'' [emptyInlinePart, pngPart])"
      "candidateOf ''STOP'' [emptyInlinePart, pngPart]"]
    tryOn_first_answer_002 [of exampleBrowser "''user''" "''data:image/jpeg;base64,user''"
      "''garment''" "''data:image/jpeg;base64,garment''"
      "answersWith (candidateOf ''STOP'' [emptyInlinePart, pngPart])"
      "candidateOf ''STOP'' [emptyInlinePart, pngPart]"]
  by (simp add: example_optimize candidateOf_simps example_parts answersWith_def inspect_parts)

subsection \<open>The declared MIME type\<close>

lemma reportsSafety_withMimeType: "reportsSafety (withMimeType m r) = reportsSafety r"
  by (auto simp: reportsSafety_def withMimeType_def split: option.splits list.splits)

lemma partsOf_withMimeType:
  "partsOf (withMimeType m r) =
     map (\<lambda>p. p\<lparr>inlineData := map_option (\<lambda>bl. bl\<lparr>mimeType := m\<rparr>) (inlineData p)\<rparr>) (partsOf r)"
  by (auto simp: partsOf_def withMimeType_def split: option.splits list.splits)

lemma find_inline_map:
  "find (\<lambda>p. inlineData p \<noteq> None)
     (map (\<lambda>p. p\<lparr>inlineData := map_option g (inlineData p)\<rparr>) ps) =
   map_option (\<lambda>p. p\<lparr>inlineData := map_option g (inlineData p)\<rparr>)
     (find (\<lambda>p. inlineData p \<noteq> None) ps)"
  by (induction ps) auto

lemma inspect_withMimeType:
  "inspectResponse s f (withMimeType m r) = inspectResponse s f r"
proof (cases "reportsSafety r")
  case True
  then show ?thesis by (simp add: inspect_safety reportsSafety_withMimeType)
next
  case False
  let ?g = "\<lambda>p. p\<lparr>inlineData := map_option (\<lambda>bl. bl\<lparr>mimeType := m\<rparr>) (inlineData p)\<rparr>"
  have found: "find (\<lambda>p. inlineData p \<noteq> None) (partsOf (withMimeType m r)) =
      map_option ?g (find (\<lambda>p. inlineData p \<noteq> None) (partsOf r))"
    by (simp only: partsOf_withMimeType find_inline_map)
  have same: "Option.bind (inlineData (?g p)) data = Option.bind (inlineData p) data"
    for p :: part
    by (cases "inlineData p") simp_all
  have ns: "\<not> reportsSafety (withMimeType m r)"
    using False by (simp add: reportsSafety_withMimeType)
  show ?thesis
  proof (cases "find (\<lambda>p. inlineData p \<noteq> None) (partsOf r)")
    case None
    with found show ?thesis
      by (simp only: inspect_parts[OF False] inspect_parts[OF ns]) simp
  next
    case (Some p)
    with found same[of p] show ?thesis
      by (simp only: inspect_parts[OF False] inspect_parts[OF ns]) simp
  qed
qed

lemma inspect_Inr_prefix:
  "inspectResponse s f r = Inr uri \<Longrightarrow> prefix ''data:image/jpeg;base64,'' uri"
  by (cases "reportsSafety r")
     (auto simp: inspect_safety inspect_parts split: option.splits if_splits)

lemma tryOnAttempt_Inr:
  "tryOnAttempt s f b user garment x = Inr uri \<Longrightarrow> \<exists>r. x = Inr r \<and> inspectResponse s f r = Inr uri"
  by (auto simp: tryOnAttempt_def split: sum.splits)

text \<open>
  Claim C10. Every value that \<open>inspectResponse\<close>, and hence \<open>performVirtualTryOn\<close> in
  both versions, returns starts with \<open>data:image/jpeg;base64,\<close>, and the outcome does not
  depend on the MIME type that the backend declared on the inline data: replacing every
  declared MIME type in the response by any other leaves the outcome unchanged.
\<close>

theorem tryOn_result_is_jpeg_uri:
  "(inspectResponse s f r = Inr uri \<longrightarrow> prefix ''data:image/jpeg;base64,'' uri)
   \<and> inspectResponse s f (withMimeType m r) = inspectResponse s f r
   \<and> (fst (performVirtualTryOn_001 b backend user garment) = Inr uri
        \<or> fst (performVirtualTryOn_002 b backend user garment) = Inr uri \<longrightarrow>
        prefix ''data:image/jpeg;base64,'' uri)"
proof (intro conjI impI)
  assume "inspectResponse s f r = Inr uri"
  then show "prefix ''data:image/jpeg;base64,'' uri" by (rule inspect_Inr_prefix)
next
  show "inspectResponse s f (withMimeType m r) = inspectResponse s f r"
    by (rule inspect_withMimeType)
next
  assume "fst (performVirtualTryOn_001 b backend user garment) = Inr uri
        \<or> fst (performVirtualTryOn_002 b backend user garment) = Inr uri"
  then have "\<exists>i s f. tryOnAttempt s f b user garment (backend i) = Inr uri"
    unfolding performVirtualTryOn_001_def performVirtualTryOn_002_def
    using returned_by_fn_001 returned_by_fn_002 by fast
  then show "prefix ''data:image/jpeg;base64,'' uri"
    using tryOnAttempt_Inr inspect_Inr_prefix by blast
qed

text \<open>An inline part declared as \<open>image/png\<close> is returned as a JPEG data URI.\<close>

theorem tryOn_result_is_jpeg_uri_witness:
  "inspectResponse safetyText_001 failureText_001 (candidateOf ''STOP'' [textPart, pngPart]) =
     Inr ''data:image/jpeg;base64,QUJD''
   \<and> Option.bind (inlineData pngPart) mimeType = Some ''image/png''
   \<and> prefix ''data:image/jpeg;base64,'' ''data:image/jpeg;base64,QUJD''"
  using tryOn_result_is_jpeg_uri [of safetyText_001 failureText_001
      "candidateOf ''STOP'' [textPart, pngPart]" "''data:image/jpeg;base64,QUJD''"]
  by (simp add: inspect_parts candidateOf_simps example_parts)

subsection \<open>Image normalisation\<close>

lemma decode_error_not_retried:
  "\<not> msgHas (newError decodeErrorText) ''429''"
  "\<not> msgHas (newError decodeErrorText) ''quota''"
  "\<not> msgHas (newError decodeErrorText) ''Requested entity was not found''"
  by (simp_all add: msgHas_def errorMsg_def newError_def decodeErrorText_def)

lemma optimizeImage_LoadError:
  "loadImage b src = LoadError \<Longrightarrow> optimizeImage b src B = Inl (newError decodeErrorText)"
  by (simp add: optimizeImage_def decodeErrorText_def)

text \<open>
  Claim C6, as amended. The numbers of the scaling are JavaScript doubles: the quotient
  \<open>maxWidth / width\<close> and its product with the other edge are each rounded to the nearest
  double, and the canvas takes the two results truncated to whole pixels. For every source
  that decodes to a \<open>w\<close> by \<open>h\<close> image and every positive whole-number bound \<open>n\<close> (all
  three below \<open>2 ^ 32\<close>, a 2d context being available), \<open>optimizeImage\<close> resolves with the
  encoding of a canvas whose longer edge does not exceed \<open>n\<close>; neither edge is larger than
  that of the source (no upscaling); when the longer edge of the source is at most \<open>n\<close> the
  canvas has the dimensions of the source; otherwise the longer edge of the canvas is
  exactly \<open>n\<close> and each edge is within one pixel of the exactly proportional length, the
  source edge times \<open>n\<close> divided by the longer source edge, truncated. When the longer
  source edge is below \<open>2 ^ 25\<close>, a canvas edge is never larger than that length and equals
  it whenever the source edge times \<open>n\<close> is not a multiple of the longer source edge; when
  it is a multiple, rounding can leave the edge one pixel short. The proportion is not
  kept exactly, and the two edges need not be the source edges times one common factor.
\<close>

theorem optimizeImage_bounds:
  assumes "0 < n" "n < 2 ^ 32" "w < 2 ^ 32" "h < 2 ^ 32"
    and "loadImage b src = Loaded w h" "getContext2d b"
  shows "optimizeImage b src (of_nat n) =
           Inr (toDataURL b src (fst (canvasSize w h (of_nat n))) (snd (canvasSize w h (of_nat n))) True 7)
         \<and> max (fst (canvasSize w h (of_nat n))) (snd (canvasSize w h (of_nat n))) \<le> n
         \<and> fst (canvasSize w h (of_nat n)) \<le> w \<and> snd (canvasSize w h (of_nat n)) \<le> h
         \<and> (max w h \<le> n \<longrightarrow> canvasSize w h (of_nat n) = (w, h))
         \<and> (n < max w h \<longrightarrow>
               max (fst (canvasSize w h (of_nat n))) (snd (canvasSize w h (of_nat n))) = n
               \<and> \<bar>int (fst (canvasSize w h (of_nat n))) - int ((w * n) div max w h)\<bar> \<le> 1
               \<and> \<bar>int (snd (canvasSize w h (of_nat n))) - int ((h * n) div max w h)\<bar> \<le> 1
               \<and> (max w h < 2 ^ 25 \<longrightarrow>
                     fst (canvasSize w h (of_nat n)) \<le> (w * n) div max w h
                     \<and> snd (canvasSize w h (of_nat n)) \<le> (h * n) div max w h
                     \<and> ((w * n) mod max w h \<noteq> 0 \<longrightarrow>
                           fst (canvasSize w h (of_nat n)) = (w * n) div max w h)
                     \<and> ((h * n) mod max w h \<noteq> 0 \<longrightarrow>
                           snd (canvasSize w h (of_nat n)) = (h * n) div max w h)))"
proof -
  have img: "optimizeImage b src (of_nat n) =
      Inr (toDataURL b src (fst (canvasSize w h (of_nat n))) (snd (canvasSize w h (of_nat n))) True 7)"
    using assms(5,6) by (rule optimizeImage_loaded)
  consider "max w h \<le> n" | "h < w" "n < w" | "w \<le> h" "n < h"
    by (cases "h < w"; cases "max w h \<le> n") (simp_all add: max_def split: if_splits)
  then have "max (fst (canvasSize w h (of_nat n))) (snd (canvasSize w h (of_nat n))) \<le> n
         \<and> fst (canvasSize w h (of_nat n)) \<le> w \<and> snd (canvasSize w h (of_nat n)) \<le> h
         \<and> (max w h \<le> n \<longrightarrow> canvasSize w h (of_nat n) = (w, h))
         \<and> (n < max w h \<longrightarrow>
               max (fst (canvasSize w h (of_nat n))) (snd (canvasSize w h (of_nat n))) = n
               \<and> \<bar>int (fst (canvasSize w h (of_nat n))) - int ((w * n) div max w h)\<bar> \<le> 1
               \<and> \<bar>int (snd (canvasSize w h (of_nat n))) - int ((h * n) div max w h)\<bar> \<le> 1
               \<and> (max w h < 2 ^ 25 \<longrightarrow>
                     fst (canvasSize w h (of_nat n)) \<le> (w * n) div max w h
                     \<and> snd (canvasSize w h (of_nat n)) \<le> (h * n) div max w h
                     \<and> ((w * n) mod max w h \<noteq> 0 \<longrightarrow>
                           fst (canvasSize w h (of_nat n)) = (w * n) div max w h)
                     \<and> ((h * n) mod max w h \<noteq> 0 \<longrightarrow>
                           snd (canvasSize w h (of_nat n)) = (h * n) div max w h)))"
  proof cases
    case 1
    then have "\<not> n < max w h" by (simp add: not_less)
    with 1 show ?thesis by (simp add: canvasSize_fits)
  next
    case 2
    have m: "max w h = w" using 2(1) by simp
    have hw: "h \<le> w" using 2(1) by simp
    note d = scaled_dim[OF assms(1) 2(2) hw assms(3)]
    note e = scaled_dim_exact[OF assms(1) 2(2) hw]
    have wn: "(w * n) div w = n" "(w * n) mod w = 0" using 2(2) by simp_all
    show ?thesis
      using d e 2 by (simp add: canvasSize_wide m wn)
  next
    case 3
    have m: "max w h = h" using 3(1) by simp
    note d = scaled_dim[OF assms(1) 3(2) 3(1) assms(4)]
    note e = scaled_dim_exact[OF assms(1) 3(2) 3(1)]
    have hn: "(h * n) div h = n" "(h * n) mod h = 0" using 3(2) by simp_all
    show ?thesis
      using d e 3 by (simp add: canvasSize_tall m hn)
  qed
  with img show ?thesis by simp
qed

text \<open>A 2000 by 1000 image becomes 800 by 400 under the bound 800 and stays under 2048.\<close>

theorem optimizeImage_bounds_witness:
  "loadImage exampleBrowser ''photo'' = Loaded 2000 1000 \<and> getContext2d exampleBrowser
   \<and> canvasSize 2000 1000 800 = (800, 400)
   \<and> optimizeImage exampleBrowser ''photo'' 800 = Inr ''data:image/jpeg;base64,photo''
   \<and> canvasSize 2000 1000 2048 = (2000, 1000)
   \<and> optimizeImage exampleBrowser ''photo'' 2048 = Inr ''data:image/jpeg;base64,photo''"
  using optimizeImage_bounds [of 800 2000 1000 exampleBrowser "''photo''"]
    optimizeImage_bounds [of 2048 2000 1000 exampleBrowser "''photo''"]
  by (simp add: example_browsers example_canvasSize)

text \<open>
  Claim C6 as stated fails. A 1122 by 561 source under the bound 1024 has the exactly
  proportional size 1024 by 512 (\<open>561 * 1024 = 512 * 1122\<close>), but \<open>1024 / 1122\<close> rounds to a
  double below the quotient, the product with 561 rounds to the double just below 512, and
  the canvas is 1024 by 511: the proportion of the source is not kept, and no common factor
  gives both edges. When the bound is not a whole number the longer edge can exceed it: a
  3 by 3 source under the bound \<open>2 - 1 / 2 ^ 52\<close> gets a canvas of 2 by 1.
\<close>

theorem double_rounding_counterexample:
  "loadImage wideImageBrowser ''photo'' = Loaded 1122 561
   \<and> (561 * 1024) div 1122 = (512::nat) \<and> 561 * 1024 = 512 * (1122::nat)
   \<and> canvasSize 1122 561 1024 = (1024, 511)
   \<and> optimizeImage wideImageBrowser ''photo'' 1024 = Inr ''data:image/jpeg;base64,photo''
   \<and> canvasSize 3 3 (2 - 1 / 2 ^ 52) = (2, 1)"
  using example_canvasSize(6,7) by (simp add: example_wide_browser optimizeImage_loaded)

text \<open>
  Claim C7, as amended. For every source that the browser fails to decode (the \<open>onerror\<close>
  event), \<open>optimizeImage\<close> rejects with the decode error and yields no payload, and the
  operations built on it end after one invocation with that error, which is not retried.
  There is no check of the decoded dimensions: a source that loads with width or height 0
  is not rejected, \<open>optimizeImage\<close> resolves with the encoding of a canvas that has a
  zero dimension.
\<close>

theorem optimizeImage_decode_failure:
  "(loadImage b src = LoadError \<longrightarrow>
      optimizeImage b src B = Inl (newError decodeErrorText)
      \<and> estimateSizeFromImage_001 b backend src = (Inl (newError decodeErrorText), \<lparr>calls = 1, sleeps = []\<rparr>)
      \<and> estimateSizeFromImage_002 b backend src = (Inl (newError decodeErrorText), \<lparr>calls = 1, sleeps = []\<rparr>)
      \<and> performVirtualTryOn_001 b backend src garment = (Inl (newError decodeErrorText), \<lparr>calls = 1, sleeps = []\<rparr>)
      \<and> performVirtualTryOn_002 b backend src garment = (Inl (newError decodeErrorText), \<lparr>calls = 1, sleeps = []\<rparr>))
   \<and> (loadImage b src = Loaded w h \<and> (w = 0 \<or> h = 0) \<and> getContext2d b \<longrightarrow>
      optimizeImage b src B =
        Inr (toDataURL b src (fst (canvasSize w h B)) (snd (canvasSize w h B)) True 7)
      \<and> (fst (canvasSize w h B) = 0 \<or> snd (canvasSize w h B) = 0))"
proof (intro conjI impI)
  assume le: "loadImage b src = LoadError"
  show o: "optimizeImage b src B = Inl (newError decodeErrorText)"
    using le by (rule optimizeImage_LoadError)
  have e: "estimateAttempt b src x = Inl (newError decodeErrorText)" for x
    by (simp add: estimateAttempt_def optimizeImage_LoadError[OF le])
  have t: "tryOnAttempt s f b src garment x = Inl (newError decodeErrorText)" for s f x
    by (simp add: tryOnAttempt_def optimizeImage_LoadError[OF le])
  show "estimateSizeFromImage_001 b backend src = (Inl (newError decodeErrorText), \<lparr>calls = 1, sleeps = []\<rparr>)"
    unfolding estimateSizeFromImage_001_def
    by (subst ends_at_first_001) (auto simp: e decode_error_not_retried status_newError)
  show "estimateSizeFromImage_002 b backend src = (Inl (newError decodeErrorText), \<lparr>calls = 1, sleeps = []\<rparr>)"
    unfolding estimateSizeFromImage_002_def
    by (subst ends_at_first_002) (auto simp: e decode_error_not_retried status_newError)
  show "performVirtualTryOn_001 b backend src garment = (Inl (newError decodeErrorText), \<lparr>calls = 1, sleeps = []\<rparr>)"
    unfolding performVirtualTryOn_001_def
    by (subst ends_at_first_001) (auto simp: t decode_error_not_retried status_newError)
  show "performVirtualTryOn_002 b backend src garment = (Inl (newError decodeErrorText), \<lparr>calls = 1, sleeps = []\<rparr>)"
    unfolding performVirtualTryOn_002_def
    by (subst ends_at_first_002) (auto simp: t decode_error_not_retried status_newError)
next
  assume a: "loadImage b src = Loaded w h \<and> (w = 0 \<or> h = 0) \<and> getContext2d b"
  then show "optimizeImage b src B =
        Inr (toDataURL b src (fst (canvasSize w h B)) (snd (canvasSize w h B)) True 7)"
    by (simp add: optimizeImage_loaded)
  from a show "fst (canvasSize w h B) = 0 \<or> snd (canvasSize w h B) = 0"
    by (intro canvasSize_zero) simp
qed

theorem optimizeImage_decode_failure_witness:
  "loadImage brokenImageBrowser ''photo'' = LoadError
   \<and> optimizeImage brokenImageBrowser ''photo'' 800 = Inl (newError decodeErrorText)
   \<and> estimateSizeFromImage_001 brokenImageBrowser (answersText ''M'') ''photo'' =
       (Inl (newError decodeErrorText), \<lparr>calls = 1, sleeps = []\<rparr>)
   \<and> loadImage emptyImageBrowser ''photo'' = Loaded 0 0
   \<and> optimizeImage emptyImageBrowser ''photo'' 800 = Inr ''data:,''"
  using optimizeImage_decode_failure [of brokenImageBrowser "''photo''" 800 "answersText ''M''"
      "''garment''" 0 0]
    optimizeImage_decode_failure [of emptyImageBrowser "''photo''" 800 "answersText ''M''"
      "''garment''" 0 0]
  by (simp add: example_browsers)

text \<open>
  Claim C7 as stated fails for a zero-dimension source that the browser loads: the result
  is a payload, the encoding of a 0 by 0 canvas, not an error.
\<close>

theorem zero_dimension_counterexample:
  "loadImage emptyImageBrowser ''photo'' = Loaded 0 0
   \<and> canvasSize 0 0 1024 = (0, 0)
   \<and> optimizeImage emptyImageBrowser ''photo'' 1024 = Inr ''data:,''"
  by (simp add: example_browsers example_canvasSize optimizeImage_loaded)

subsection \<open>The orchestrator\<close>

lemma catchBlock_failed:
  "failed a0 (catchBlock err a) \<longleftrightarrow>
     resultImage (state a) = resultImage (state a0) \<and> recommendedSize (state a) = recommendedSize (state a0)"
  by (auto simp: failed_def catchBlock_def fallbackText_def Let_def split: option.splits)

lemma catchBlock_000_failed:
  "failed a0 (catchBlock_000 err a) \<longleftrightarrow>
     resultImage (state a) = resultImage (state a0) \<and> recommendedSize (state a) = recommendedSize (state a0)"
  by (auto simp: failed_def catchBlock_000_def fallbackText_def Let_def split: option.splits)

lemma tryBlock_cases:
  "fst (tryBlock l1 l2 l3 svc user p) =
     (case svcUrlToBase64 svc (imageUrl p) of
        Inl e \<Rightarrow> Inl e
      | Inr pb \<Rightarrow>
          (case svcEstimateSize svc user (productName p) of
             Inl e \<Rightarrow> Inl e
           | Inr sz \<Rightarrow>
               (case svcTryOn svc user pb p of Inl e \<Rightarrow> Inl e | Inr res \<Rightarrow> Inr (res, sz))))"
  by (simp add: tryBlock_def split: sum.splits)

lemma handleTryOn_outcome:
  assumes "userImage (state a) = Some user" "user \<noteq> []" "selectedProduct (state a) = Some p"
  shows "case fst (tryBlock ''Lade High-End-Modell...'' ''Analysiere Proportionen...''
                    ''Generiere Foto-Realismus...'' svc user p) of
           Inr (res, sz) \<Rightarrow> published (handleTryOn svc a) res sz
         | Inl e \<Rightarrow> failed a (handleTryOn svc a)"
  using assms
  by (cases "tryBlock ''Lade High-End-Modell...'' ''Analysiere Proportionen...''
                    ''Generiere Foto-Realismus...'' svc user p")
     (auto simp: handleTryOn_def Let_def published_def catchBlock_failed split: sum.splits)

lemma handleTryOn_000_outcome:
  assumes "userImage (state a) = Some user" "user \<noteq> []" "selectedProduct (state a) = Some p"
  shows "case fst (tryBlock ''Produkt wird geladen...''
                    (''Gr'' @ [CHR 0xF6, CHR 0xDF] @ ''e wird berechnet...'')
                    ''Look wird gerendert...'' svc user p) of
           Inr (res, sz) \<Rightarrow> published (handleTryOn_000 svc a) res sz
         | Inl e \<Rightarrow> failed a (handleTryOn_000 svc a)"
  using assms
  by (cases "tryBlock ''Produkt wird geladen...''
                    (''Gr'' @ [CHR 0xF6, CHR 0xDF] @ ''e wird berechnet...'')
                    ''Look wird gerendert...'' svc user p")
     (auto simp: handleTryOn_000_def Let_def published_def catchBlock_000_failed split: sum.splits)

lemma published_not_failed: "published a' res sz \<Longrightarrow> \<not> failed a a'"
  by (simp add: published_def failed_def)

text \<open>
  Claim C9. For every attempt that starts with a user image and a selected product, in
  both versions of the handler and whatever the three service calls do: when all three
  resolve, the composite image and the recommended size are published together and no
  error is shown; when any of them rejects, a non-empty error message is published and the
  result fields keep the values they had when the attempt started, so that a size estimate
  obtained before a rendering failure is not published. Exactly one of the two happens:
  the final state has no error exactly when the attempt succeeds, and it is a failed state
  exactly when it does not.
\<close>

theorem handleTryOn_single_outcome:
  assumes "userImage (state a) = Some user" "user \<noteq> []" "selectedProduct (state a) = Some p"
  shows "(svcUrlToBase64 svc (imageUrl p) = Inr pb \<and> svcEstimateSize svc user (productName p) = Inr sz
            \<and> svcTryOn svc user pb p = Inr res \<longrightarrow>
            published (handleTryOn svc a) res sz \<and> published (handleTryOn_000 svc a) res sz)
       \<and> (svcUrlToBase64 svc (imageUrl p) = Inl e \<longrightarrow>
            failed a (handleTryOn svc a) \<and> failed a (handleTryOn_000 svc a))
       \<and> (svcUrlToBase64 svc (imageUrl p) = Inr pb \<and> svcEstimateSize svc user (productName p) = Inl e \<longrightarrow>
            failed a (handleTryOn svc a) \<and> failed a (handleTryOn_000 svc a))
       \<and> (svcUrlToBase64 svc (imageUrl p) = Inr pb \<and> svcEstimateSize svc user (productName p) = Inr sz
            \<and> svcTryOn svc user pb p = Inl e \<longrightarrow>
            failed a (handleTryOn svc a) \<and> failed a (handleTryOn_000 svc a)
            \<and> recommendedSize (state (handleTryOn svc a)) = recommendedSize (state a)
            \<and> recommendedSize (state (handleTryOn_000 svc a)) = recommendedSize (state a))
       \<and> (succeeds svc user p \<longleftrightarrow> error (state (handleTryOn svc a)) = None)
       \<and> (succeeds svc user p \<longleftrightarrow> error (state (handleTryOn_000 svc a)) = None)
       \<and> (failed a (handleTryOn svc a) \<longleftrightarrow> \<not> succeeds svc user p)
       \<and> (failed a (handleTryOn_000 svc a) \<longleftrightarrow> \<not> succeeds svc user p)"
  using handleTryOn_outcome[OF assms, of svc] handleTryOn_000_outcome[OF assms, of svc]
  unfolding tryBlock_cases succeeds_def
  by (auto simp: published_def failed_def split: sum.splits option.splits)

lemma example_services:
  "svcUrlToBase64 goodServices url = Inr url" "svcEstimateSize goodServices user name = Inr ''M''"
  "svcTryOn goodServices user garment p = Inr ''data:image/jpeg;base64,QUJD''"
  "svcUrlToBase64 renderFails url = Inr url" "svcEstimateSize renderFails user name = Inr ''M''"
  "svcTryOn renderFails user garment p = Inl (newError failureText_001)"
  by (simp_all add: goodServices_def renderFails_def)

lemma example_app:
  "userImage (state readyApp) = Some ''data:image/png;base64,AAAA''"
  "selectedProduct (state readyApp) = Some exampleProduct"
  "recommendedSize (state readyApp) = None" "resultImage (state readyApp) = None"
  by (simp_all add: readyApp_def)

theorem handleTryOn_single_outcome_witness:
  "published (handleTryOn goodServices readyApp) ''data:image/jpeg;base64,QUJD'' ''M''
   \<and> published (handleTryOn_000 goodServices readyApp) ''data:image/jpeg;base64,QUJD'' ''M''
   \<and> failed readyApp (handleTryOn renderFails readyApp)
   \<and> failed readyApp (handleTryOn_000 renderFails readyApp)
   \<and> recommendedSize (state (handleTryOn renderFails readyApp)) = None
   \<and> recommendedSize (state (handleTryOn_000 renderFails readyApp)) = None"
  using handleTryOn_single_outcome [of readyApp "''data:image/png;base64,AAAA''" exampleProduct
      goodServices "imageUrl exampleProduct" "''M''" "''data:image/jpeg;base64,QUJD''"]
    handleTryOn_single_outcome [of readyApp "''data:image/png;base64,AAAA''" exampleProduct
      renderFails "imageUrl exampleProduct" "''M''" _ "newError failureText_001"]
  by (simp add: example_services example_app)

end
